theory Spec2Isabelle
  imports Complex_Main "HOL-Library.AList" "HOL-Library.Sublist" "HOL-Library.List_Lexorder" "HOL-Library.Char_ord"
begin

section \<open>Python values used by the story pipeline\<close>

text \<open>
  A Python \<^verbatim>\<open>str\<close> is modelled as a \<^typ>\<open>string\<close> whose characters are the code points
  below 256. The character classes below are the ones Python's \<^verbatim>\<open>str.isspace\<close> (also the
  regular expression class \<^verbatim>\<open>\s\<close>) and the regular expression class \<^verbatim>\<open>\w\<close> have on that
  range.
\<close>

datatype py_error =
    ZeroDivisionError | IsADirectoryError | NotADirectoryError | KeyError | IndexError
  | ValueError

definition NL :: char where
  "NL = CHR 0x0A"

definition py_isspace :: "char \<Rightarrow> bool" where
  "py_isspace c = ((of_char c :: nat) \<in> set [9, 10, 11, 12, 13, 28, 29, 30, 31, 32, 133, 160])"

definition py_isword :: "char \<Rightarrow> bool" where
  "py_isword c =
     (let n = (of_char c :: nat) in
        (48 \<le> n \<and> n \<le> 57) \<or> (65 \<le> n \<and> n \<le> 90) \<or> (97 \<le> n \<and> n \<le> 122) \<or> n = 95 \<or>
        n \<in> set [170, 178, 179, 181, 185, 186, 188, 189, 190] \<or>
        (192 \<le> n \<and> n \<le> 214) \<or> (216 \<le> n \<and> n \<le> 246) \<or> (248 \<le> n \<and> n \<le> 255))"

text \<open>\<^verbatim>\<open>s.strip()\<close>: whitespace removed at both ends.\<close>

definition strip :: "string \<Rightarrow> string" where
  "strip s = rev (dropWhile py_isspace (rev (dropWhile py_isspace s)))"

text \<open>\<^verbatim>\<open>s.startswith(p)\<close> and \<^verbatim>\<open>s.endswith(p)\<close>.\<close>

definition startswith :: "string \<Rightarrow> string \<Rightarrow> bool" where
  "startswith s p = (take (length p) s = p)"

definition endswith :: "string \<Rightarrow> string \<Rightarrow> bool" where
  "endswith s p = (length p \<le> length s \<and> drop (length s - length p) s = p)"

text \<open>The text after the first occurrence of \<open>d\<close> in a string, if \<open>d\<close> occurs.\<close>

fun after_first :: "string \<Rightarrow> string \<Rightarrow> string option" where
  "after_first d [] = (if d = [] then Some [] else None)"
| "after_first d (c # cs) =
     (if startswith (c # cs) d then Some (drop (length d) (c # cs)) else after_first d cs)"

text \<open>The text before the first occurrence of \<open>d\<close> in a string, if \<open>d\<close> occurs.\<close>

fun before_first :: "string \<Rightarrow> string \<Rightarrow> string option" where
  "before_first d [] = (if d = [] then Some [] else None)"
| "before_first d (c # cs) =
     (if startswith (c # cs) d then Some []
      else map_option ((#) c) (before_first d cs))"

text \<open>Python truthiness of an \<^verbatim>\<open>Optional[str]\<close>: \<^verbatim>\<open>None\<close> and \<^verbatim>\<open>""\<close> are false.\<close>

fun truthy :: "string option \<Rightarrow> bool" where
  "truthy None = False"
| "truthy (Some s) = (s \<noteq> [])"

text \<open>\<^verbatim>\<open>a or b\<close> on optional strings.\<close>

definition py_or :: "string option \<Rightarrow> string option \<Rightarrow> string option" where
  "py_or a b = (if truthy a then a else b)"

text \<open>Decimal formatting of integers: \<^verbatim>\<open>str(n)\<close> and the format \<^verbatim>\<open>{n:02d}\<close>.\<close>

definition digit_char :: "nat \<Rightarrow> char" where
  "digit_char d = ''0123456789'' ! d"

fun digits :: "nat \<Rightarrow> string" where
  "digits n = (if n < 10 then [digit_char n] else digits (n div 10) @ [digit_char (n mod 10)])"

declare digits.simps [simp del]

definition str_of_int :: "int \<Rightarrow> string" where
  "str_of_int i = (if i < 0 then CHR ''-'' # digits (nat (- i)) else digits (nat i))"

definition format_02d :: "int \<Rightarrow> string" where
  "format_02d i =
     (if i < 0 then CHR ''-'' # digits (nat (- i))
      else if i < 10 then CHR ''0'' # digits (nat i)
      else digits (nat i))"

section \<open>utils.py\<close>

subsection \<open>count_words\<close>

text \<open>
  \<^verbatim>\<open>re.sub(r'^#+\s+.*$', '', text, flags=re.MULTILINE)\<close>. The flag \<open>bol\<close> says that the
  position is the beginning of a line. A match is a run of \<^verbatim>\<open>#\<close> at the beginning of a
  line, at least one whitespace character (newlines included) and the rest of the line
  reached there; the newline that ends it stays.
\<close>

function sub_headers :: "bool \<Rightarrow> string \<Rightarrow> string" where
  "sub_headers bol [] = []"
| "sub_headers bol (c # cs) =
     (if bol \<and> c = CHR ''#'' then
        (case dropWhile (\<lambda>x. x = CHR ''#'') cs of
           [] \<Rightarrow> c # sub_headers False cs
         | w # ws \<Rightarrow>
             if py_isspace w
             then sub_headers False (dropWhile (\<lambda>x. x \<noteq> NL) (dropWhile py_isspace ws))
             else c # sub_headers False cs)
      else c # sub_headers (c = NL) cs)"
  by pat_completeness auto
termination
proof (relation "measure (\<lambda>(b, s). length s)", goal_cases)
  case (3 bol c cs w ws)
  have "length (dropWhile (\<lambda>x. x \<noteq> NL) (dropWhile py_isspace ws)) \<le> length ws"
    by (meson length_dropWhile_le order_trans)
  moreover have "length (w # ws) \<le> length cs"
    using 3(2) length_dropWhile_le [of "\<lambda>x. x = CHR ''#''" cs] by simp
  ultimately show ?case by simp
qed simp_all

text \<open>
  \<^verbatim>\<open>re.sub(d + '.*?' + d, '', text, flags=re.DOTALL)\<close> for a literal delimiter \<open>d\<close>: from
  left to right, a delimiter and everything up to the next delimiter after it are removed;
  a delimiter with no later partner stays.
\<close>

function sub_delimited :: "string \<Rightarrow> string \<Rightarrow> string" where
  "sub_delimited d [] = []"
| "sub_delimited d (c # cs) =
     (if d \<noteq> [] \<and> startswith (c # cs) d then
        (case after_first d (drop (length d) (c # cs)) of
           Some rest \<Rightarrow> sub_delimited d rest
         | None \<Rightarrow> c # sub_delimited d cs)
      else c # sub_delimited d cs)"
  by pat_completeness auto
termination
proof (relation "measure (\<lambda>(d, s). length s)", goal_cases)
  case (3 d c cs rest)
  have shorter: "after_first d s = Some r \<Longrightarrow> length r \<le> length s" for s r
    by (induction s arbitrary: r) (auto split: if_splits)
  from 3 have "length rest \<le> length (drop (length d) (c # cs))"
    using shorter by blast
  moreover from 3 have "d \<noteq> []" by simp
  ultimately show ?case by (cases d) auto
qed simp_all

text \<open>\<^verbatim>\<open>len(re.findall(r'\b\w+\b', text))\<close>: the number of maximal runs of word characters.\<close>

fun count_runs :: "bool \<Rightarrow> string \<Rightarrow> nat" where
  "count_runs inw [] = 0"
| "count_runs inw (c # cs) =
     (if py_isword c then (if inw then 0 else 1) + count_runs True cs
      else count_runs False cs)"

definition count_words :: "string \<Rightarrow> nat" where
  "count_words text =
     count_runs False
       (sub_delimited ''---'' (sub_delimited ''```'' (sub_headers True text)))"

subsection \<open>validate_word_count\<close>

text \<open>
  The third component of the result is a message. Its fields are kept instead of the
  formatted text; the deviation, a float printed with one decimal in the source, is kept
  as the exact quotient.
\<close>

datatype wc_message =
    Too_short int int
  | Too_long int int
  | Valid int rat

definition validate_word_count ::
    "string \<Rightarrow> int \<Rightarrow> int \<Rightarrow> int \<Rightarrow> py_error + (bool \<times> int \<times> wc_message)" where
  "validate_word_count text target min_words max_words =
     (let word_count = int (count_words text) in
      if word_count < min_words then
        Inr (False, word_count, Too_short word_count min_words)
      else if word_count > max_words then
        Inr (False, word_count, Too_long word_count max_words)
      else if target = 0 then Inl ZeroDivisionError
      else Inr (True, word_count,
                Valid word_count (of_int \<bar>word_count - target\<bar> / of_int target * 100)))"

subsection \<open>Paths and files\<close>

text \<open>\<^verbatim>\<open>os.path.join(a, *ps)\<close> on POSIX: an absolute component starts the path afresh.\<close>

definition path_join2 :: "string \<Rightarrow> string \<Rightarrow> string" where
  "path_join2 path b =
     (if startswith b ''/'' then b
      else if path = [] \<or> endswith path ''/'' then path @ b
      else path @ ''/'' @ b)"

definition os_path_join :: "string \<Rightarrow> string list \<Rightarrow> string" where
  "os_path_join a ps = foldl path_join2 a ps"

text \<open>
  \<open>base\<close> is \<^verbatim>\<open>config['project']['base_path']\<close>, the only part of the configuration the
  path functions read.
\<close>

definition get_project_path :: "string \<Rightarrow> string list \<Rightarrow> string" where
  "get_project_path base parts = os_path_join base parts"

definition get_scene_path :: "string \<Rightarrow> string \<Rightarrow> int \<Rightarrow> int \<Rightarrow> string \<Rightarrow> string \<Rightarrow> string" where
  "get_scene_path base book_name chapter scene version stage =
     os_path_join (get_project_path base [''output'', book_name, ''scenes'', stage])
       [''chapter_'' @ format_02d chapter @ ''_scene_'' @ format_02d scene @ ''_'' @ version @ ''.md'']"

definition get_chapter_path :: "string \<Rightarrow> string \<Rightarrow> int \<Rightarrow> string \<Rightarrow> string" where
  "get_chapter_path base book_name chapter version =
     os_path_join (get_project_path base [''output'', book_name, ''chapters''])
       [''chapter_'' @ format_02d chapter @ ''_'' @ version @ ''.md'']"

text \<open>
  What the pipeline does to the outside is recorded in a trace, in the order it happens:
  a call of the model backend with its outcome, a sleep, a file written.
\<close>

datatype response = Raises | Returns string

datatype event =
    Generate "string option" string response
  | Sleep nat
  | Write string string

text \<open>
  The world of a run: the files (path and content, one entry per path), the directories,
  and the trace so far.
\<close>

record world =
  files :: "(string \<times> string) list"
  dirs :: "string list"
  trace :: "event list"

definition emit :: "event \<Rightarrow> world \<Rightarrow> world" where
  "emit e w = w\<lparr>trace := trace w @ [e]\<rparr>"

text \<open>
  \<^verbatim>\<open>os.path.exists\<close>: a file, a listed directory, or a directory that holds a file or a
  listed directory.
\<close>

definition path_exists :: "world \<Rightarrow> string \<Rightarrow> bool" where
  "path_exists w p =
     (p \<in> set (map fst (files w)) \<or> p \<in> set (dirs w) \<or>
      list_ex (\<lambda>q. p \<noteq> [] \<and> startswith q (path_join2 p []))
        (map fst (files w) @ dirs w))"

text \<open>
  Reading in text mode translates the line endings: a carriage return followed by a line
  feed, and a carriage return alone, are read as one line feed.
\<close>

definition CR :: char where
  "CR = CHR 0x0D"

fun universal_newlines :: "string \<Rightarrow> string" where
  "universal_newlines [] = []"
| "universal_newlines [c] = (if c = CR then [NL] else [c])"
| "universal_newlines (c # d # cs) =
     (if c = CR \<and> d = NL then NL # universal_newlines cs
      else if c = CR then NL # universal_newlines (d # cs)
      else c # universal_newlines (d # cs))"

text \<open>
  \<^verbatim>\<open>load_text_file\<close>: the content of the file, read in text mode; the empty string when
  nothing has the path (\<^verbatim>\<open>FileNotFoundError\<close> is caught). Opening a directory raises, and
  so does a path that leads through a file.
\<close>

definition load_text_file :: "world \<Rightarrow> string \<Rightarrow> py_error + string" where
  "load_text_file w p =
     (case map_of (files w) p of
        Some content \<Rightarrow> Inr (universal_newlines content)
      | None \<Rightarrow>
          if path_exists w p then Inl IsADirectoryError
          else if list_ex (\<lambda>q. q \<noteq> [] \<and> startswith p (q @ ''/'')) (map fst (files w))
          then Inl NotADirectoryError
          else Inr [])"

text \<open>
  \<^verbatim>\<open>save_text_file\<close>: the directory of the path is created when missing and the file is
  written (created or replaced).
\<close>

definition save_text_file :: "string \<Rightarrow> string \<Rightarrow> world \<Rightarrow> world" where
  "save_text_file content p w =
     emit (Write p content) (w\<lparr>files := AList.update p content (files w)\<rparr>)"

text \<open>\<^verbatim>\<open>s.replace(old, new)\<close> for a non-empty \<open>old\<close>.\<close>

function str_replace :: "string \<Rightarrow> string \<Rightarrow> string \<Rightarrow> string" where
  "str_replace old new [] = []"
| "str_replace old new (c # cs) =
     (if old \<noteq> [] \<and> startswith (c # cs) old
      then new @ str_replace old new (drop (length old) (c # cs))
      else c # str_replace old new cs)"
  by pat_completeness auto
termination
proof (relation "measure (\<lambda>(old, new, s). length s)", goal_cases)
  case (2 old c cs new)
  then show ?case by (cases old) auto
qed simp_all

text \<open>\<^verbatim>\<open>s.split(sep, maxsplit)\<close> for a non-empty \<open>sep\<close>.\<close>

fun split_max :: "string \<Rightarrow> nat \<Rightarrow> string \<Rightarrow> string list" where
  "split_max sep 0 s = [s]"
| "split_max sep (Suc n) s =
     (case before_first sep s of
        None \<Rightarrow> [s]
      | Some b \<Rightarrow> b # split_max sep n (drop (length b + length sep) s))"

section \<open>llm_client.py\<close>

text \<open>
  The backend behind \<^verbatim>\<open>OllamaClient.generate\<close> is an input of the model: given what has
  happened so far, the model name and the prompt, the call raises or returns a text. The
  sampling parameters are passed through unchanged by every caller and are left out.
\<close>

type_synonym backend = "event list \<Rightarrow> string option \<Rightarrow> string \<Rightarrow> response"

record model_cfg =
  primary :: "string option"
  model :: "string option"
  fallback :: "string option"
  alternatives :: "string list"

text \<open>
  An \<^verbatim>\<open>LLMManager\<close>. Its constructor reads \<^verbatim>\<open>config['models']['prose']['server']\<close>, so the
  role \<^verbatim>\<open>prose\<close> is always configured; the other roles are a dictionary.
  \<^verbatim>\<open>retry_delay\<close> is a number of seconds \<^verbatim>\<open>time.sleep\<close> accepts.
\<close>

record llm_manager =
  prose_cfg :: model_cfg
  other_cfgs :: "string \<rightharpoonup> model_cfg"
  max_retries :: int
  retry_delay :: nat

definition models_cfg :: "llm_manager \<Rightarrow> (string \<rightharpoonup> model_cfg)" where
  "models_cfg mgr = (other_cfgs mgr)(''prose'' \<mapsto> prose_cfg mgr)"

definition get_model_config :: "llm_manager \<Rightarrow> string \<Rightarrow> model_cfg" where
  "get_model_config mgr key =
     (case models_cfg mgr key of Some cfg \<Rightarrow> cfg | None \<Rightarrow> prose_cfg mgr)"

text \<open>
  The loop of \<^verbatim>\<open>_try_generate\<close> over the attempt numbers still to run. A text that is not
  empty after \<^verbatim>\<open>strip\<close> is returned at once; an empty one goes to the next attempt; an
  exception is caught, and is followed by a sleep unless the attempt is the last.
\<close>

fun try_attempts ::
    "llm_manager \<Rightarrow> backend \<Rightarrow> string option \<Rightarrow> string \<Rightarrow> nat list \<Rightarrow> world \<Rightarrow> string option \<times> world" where
  "try_attempts mgr be m prompt [] w = (None, w)"
| "try_attempts mgr be m prompt (attempt # rest) w =
     (case be (trace w) m prompt of
        Returns result \<Rightarrow>
          (let w1 = emit (Generate m prompt (Returns result)) w in
           if result \<noteq> [] \<and> length (strip result) > 0 then (Some result, w1)
           else try_attempts mgr be m prompt rest w1)
      | Raises \<Rightarrow>
          (let w1 = emit (Generate m prompt Raises) w;
               w2 = (if int attempt < max_retries mgr - 1
                     then emit (Sleep (retry_delay mgr)) w1 else w1)
           in try_attempts mgr be m prompt rest w2))"

definition try_generate ::
    "llm_manager \<Rightarrow> backend \<Rightarrow> string option \<Rightarrow> string \<Rightarrow> world \<Rightarrow> string option \<times> world" where
  "try_generate mgr be m prompt w =
     try_attempts mgr be m prompt [0 ..< nat (max_retries mgr)] w"

text \<open>The loop of \<^verbatim>\<open>generate_with_retry\<close> over the alternatives.\<close>

fun try_alternatives ::
    "llm_manager \<Rightarrow> backend \<Rightarrow> string \<Rightarrow> string list \<Rightarrow> world \<Rightarrow> string option \<times> world" where
  "try_alternatives mgr be prompt [] w = (None, w)"
| "try_alternatives mgr be prompt (alt # alts) w =
     (case try_generate mgr be (Some alt) prompt w of
        (result, w1) \<Rightarrow>
          if truthy result then (result, w1)
          else try_alternatives mgr be prompt alts w1)"

definition generate_with_retry ::
    "llm_manager \<Rightarrow> backend \<Rightarrow> string \<Rightarrow> string \<Rightarrow> world \<Rightarrow> string option \<times> world" where
  "generate_with_retry mgr be prompt model_config_key w =
     (let cfg = get_model_config mgr model_config_key;
          first = py_or (primary cfg) (model cfg)
      in case try_generate mgr be first prompt w of
           (result, w1) \<Rightarrow>
             if truthy result then (result, w1)
             else if truthy (fallback cfg) then
               (case try_generate mgr be (fallback cfg) prompt w1 of
                  (result2, w2) \<Rightarrow>
                    if truthy result2 then (result2, w2)
                    else try_alternatives mgr be prompt (alternatives cfg) w2)
             else try_alternatives mgr be prompt (alternatives cfg) w1)"

subsection \<open>What a trace shows\<close>

text \<open>The backend calls of a trace, in order: the model asked and the outcome.\<close>

fun gen_calls :: "event list \<Rightarrow> (string option \<times> response) list" where
  "gen_calls [] = []"
| "gen_calls (Generate m p r # es) = (m, r) # gen_calls es"
| "gen_calls (Sleep d # es) = gen_calls es"
| "gen_calls (Write p c # es) = gen_calls es"

text \<open>A failed attempt: the backend raised, or its text is empty once stripped.\<close>

definition failed :: "response \<Rightarrow> bool" where
  "failed r = (case r of Raises \<Rightarrow> True | Returns t \<Rightarrow> strip t = [])"

text \<open>
  \<open>first_success sched cs res\<close>: the calls \<open>cs\<close> follow the planned order \<open>sched\<close> and
  stop at the first success. With a result, the calls are a non-empty beginning of the
  plan, the last call returned the result, which is not blank, and every call before it
  failed. Without a result, the whole plan was run and every call failed.
\<close>

definition first_success ::
    "string option list \<Rightarrow> (string option \<times> response) list \<Rightarrow> string option \<Rightarrow> bool" where
  "first_success sched cs res =
     (case res of
        None \<Rightarrow> map fst cs = sched \<and> list_all (\<lambda>c. failed (snd c)) cs
      | Some t \<Rightarrow>
          cs \<noteq> [] \<and> prefix (map fst cs) sched \<and> snd (last cs) = Returns t \<and> strip t \<noteq> [] \<and>
          list_all (\<lambda>c. failed (snd c)) (butlast cs))"

text \<open>
  The model chain of a role: the primary model (or the entry \<^verbatim>\<open>model\<close>), the fallback when
  one is configured, the alternatives in their order. The plan of a run asks each model
  of the chain \<^verbatim>\<open>max_retries\<close> times before the next.
\<close>

definition chain :: "model_cfg \<Rightarrow> string option list" where
  "chain cfg =
     py_or (primary cfg) (model cfg) #
     (if truthy (fallback cfg) then [fallback cfg] else []) @ map Some (alternatives cfg)"

definition schedule :: "llm_manager \<Rightarrow> model_cfg \<Rightarrow> string option list" where
  "schedule mgr cfg = concat (map (replicate (nat (max_retries mgr))) (chain cfg))"

text \<open>One model after the other, as far as the first result.\<close>

fun try_chain ::
    "llm_manager \<Rightarrow> backend \<Rightarrow> string \<Rightarrow> string option list \<Rightarrow> world \<Rightarrow> string option \<times> world" where
  "try_chain mgr be prompt [] w = (None, w)"
| "try_chain mgr be prompt (m # ms) w =
     (case try_generate mgr be m prompt w of
        (result, w1) \<Rightarrow>
          if truthy result then (result, w1) else try_chain mgr be prompt ms w1)"

text \<open>
  \<open>delays_ok d evs\<close>: in \<open>evs\<close>, a backend call that raised and is not the last event is
  followed at once by a sleep of \<open>d\<close> seconds, and every sleep is of \<open>d\<close> seconds.
\<close>

fun delays_ok :: "nat \<Rightarrow> event list \<Rightarrow> bool" where
  "delays_ok d (Generate m p Raises # e # es) = (e = Sleep d \<and> delays_ok d (e # es))"
| "delays_ok d (Sleep d' # es) = (d' = d \<and> delays_ok d es)"
| "delays_ok d (e # es) = delays_ok d es"
| "delays_ok d [] = True"

subsection \<open>A configuration with three models\<close>

definition empty_world :: world where
  "empty_world = \<lparr>files = [], dirs = [], trace = []\<rparr>"

definition three_model_cfg :: model_cfg where
  "three_model_cfg =
     \<lparr>primary = Some ''model-a'', model = None, fallback = Some ''model-b'',
      alternatives = [''model-c'']\<rparr>"

definition two_try_manager :: llm_manager where
  "two_try_manager =
     \<lparr>prose_cfg = three_model_cfg, other_cfgs = Map.empty, max_retries = 2, retry_delay = 2\<rparr>"

text \<open>A backend where the first model is down, the second answers with a blank, and the
  third writes.\<close>

definition only_c_answers :: backend where
  "only_c_answers tr m p =
     (if m = Some ''model-a'' then Raises
      else if m = Some ''model-b'' then Returns '' ''
      else Returns ''Once upon a time'')"

text \<open>A backend that always answers with the empty text.\<close>

definition silent_backend :: backend where
  "silent_backend tr m p = Returns []"

section \<open>generate_scene.py\<close>

text \<open>
  Of \<^verbatim>\<open>config['scene']\<close>, \<^verbatim>\<open>_generate_with_validation\<close> reads the number of attempts and
  the word limits; of the scene metadata it reads \<^verbatim>\<open>target_word_count\<close>.
\<close>

record scene_cfg =
  scene_max_retries :: int
  scene_min_words :: int
  scene_max_words :: int

record scene_generator =
  sg_llm :: llm_manager
  sg_scene :: scene_cfg

text \<open>
  The loop of \<^verbatim>\<open>_generate_with_validation\<close> over the attempt numbers still to run. An
  exception of \<^verbatim>\<open>validate_word_count\<close> is not caught and ends the call.
\<close>

fun validation_attempts ::
    "scene_generator \<Rightarrow> backend \<Rightarrow> string \<Rightarrow> int \<Rightarrow> nat list \<Rightarrow> world \<Rightarrow>
       (py_error + string option) \<times> world" where
  "validation_attempts sg be prompt target [] w = (Inr None, w)"
| "validation_attempts sg be prompt target (attempt # rest) w =
     (case generate_with_retry (sg_llm sg) be prompt ''prose'' w of
        (prose, w1) \<Rightarrow>
          if \<not> truthy prose then validation_attempts sg be prompt target rest w1
          else
            (case validate_word_count (the prose) target
                    (scene_min_words (sg_scene sg)) (scene_max_words (sg_scene sg)) of
               Inl e \<Rightarrow> (Inl e, w1)
             | Inr (valid, word_count, message) \<Rightarrow>
                 if valid then (Inr prose, w1)
                 else if int attempt < scene_max_retries (sg_scene sg) - 1
                 then validation_attempts sg be prompt target rest w1
                 else (Inr prose, w1)))"

definition generate_with_validation ::
    "scene_generator \<Rightarrow> backend \<Rightarrow> string \<Rightarrow> int \<Rightarrow> world \<Rightarrow> (py_error + string option) \<times> world" where
  "generate_with_validation sg be prompt target w =
     validation_attempts sg be prompt target [0 ..< nat (scene_max_retries (sg_scene sg))] w"

subsection \<open>The attempts of a run\<close>

text \<open>
  The world after \<open>k\<close> full generation attempts (calls of \<^verbatim>\<open>generate_with_retry\<close> under the
  role \<^verbatim>\<open>prose\<close>), and the prose attempt number \<open>k\<close> (from 0) produces.
\<close>

primrec attempt_world :: "scene_generator \<Rightarrow> backend \<Rightarrow> string \<Rightarrow> nat \<Rightarrow> world \<Rightarrow> world" where
  "attempt_world sg be prompt 0 w = w"
| "attempt_world sg be prompt (Suc k) w =
     snd (generate_with_retry (sg_llm sg) be prompt ''prose'' (attempt_world sg be prompt k w))"

definition attempt_output ::
    "scene_generator \<Rightarrow> backend \<Rightarrow> string \<Rightarrow> nat \<Rightarrow> world \<Rightarrow> string option" where
  "attempt_output sg be prompt k w =
     fst (generate_with_retry (sg_llm sg) be prompt ''prose'' (attempt_world sg be prompt k w))"

text \<open>The verdict of the word count validation on a prose: valid, or out of range.\<close>

definition passes_validation :: "scene_generator \<Rightarrow> int \<Rightarrow> string \<Rightarrow> bool" where
  "passes_validation sg target prose =
     (case validate_word_count prose target (scene_min_words (sg_scene sg)) (scene_max_words (sg_scene sg)) of
        Inr (valid, word_count, message) \<Rightarrow> valid
      | Inl e \<Rightarrow> False)"

definition fails_validation :: "scene_generator \<Rightarrow> int \<Rightarrow> string \<Rightarrow> bool" where
  "fails_validation sg target prose =
     (case validate_word_count prose target (scene_min_words (sg_scene sg)) (scene_max_words (sg_scene sg)) of
        Inr (valid, word_count, message) \<Rightarrow> \<not> valid
      | Inl e \<Rightarrow> False)"

text \<open>
  An attempt is retried when it produced nothing, or a prose that fails validation while
  another attempt is left: the loop goes on to the next attempt.
\<close>

definition retried :: "scene_generator \<Rightarrow> int \<Rightarrow> nat \<Rightarrow> string option \<Rightarrow> bool" where
  "retried sg target attempt out =
     (case out of
        None \<Rightarrow> True
      | Some prose \<Rightarrow>
          prose = [] \<or>
          (fails_validation sg target prose \<and>
           Suc attempt < nat (scene_max_retries (sg_scene sg))))"

subsection \<open>A scene generator whose model writes too little\<close>

definition short_scene_generator :: scene_generator where
  "short_scene_generator =
     \<lparr>sg_llm = two_try_manager,
      sg_scene = \<lparr>scene_max_retries = 2, scene_min_words = 5, scene_max_words = 10\<rparr>\<rparr>"

section \<open>refine_scene.py\<close>

text \<open>
  \<^verbatim>\<open>str.format\<close> with the single keyword argument \<^verbatim>\<open>scene_content\<close> is an input of the
  model: applied to a template and the scene text it gives the prompt, or raises (a
  \<^verbatim>\<open>KeyError\<close> for another field name, an \<^verbatim>\<open>IndexError\<close> for a positional field, a
  \<^verbatim>\<open>ValueError\<close> for a brace without partner).
\<close>

type_synonym formatter = "string \<Rightarrow> string \<Rightarrow> py_error + string"

text \<open>
  \<^verbatim>\<open>LLMManager.refine_scene\<close>: the template is formatted with the scene text and sent
  under the role \<^verbatim>\<open>refinement\<close>.
\<close>

definition llm_refine_scene ::
    "llm_manager \<Rightarrow> formatter \<Rightarrow> backend \<Rightarrow> string \<Rightarrow> string \<Rightarrow> string \<Rightarrow> world \<Rightarrow>
       (py_error + string option) \<times> world" where
  "llm_refine_scene mgr fmt be prompt_template scene_content pass_type w =
     (case fmt prompt_template scene_content of
        Inl e \<Rightarrow> (Inl e, w)
      | Inr full_prompt \<Rightarrow>
          (case generate_with_retry mgr be full_prompt ''refinement'' w of
             (result, w1) \<Rightarrow> (Inr result, w1)))"

text \<open>
  A \<^verbatim>\<open>SceneRefiner\<close>: the base path of the project, the manager, the three prompt
  templates its constructor loads, and the style guide.
\<close>

record scene_refiner =
  sr_base :: string
  sr_llm :: llm_manager
  prompt_cohesion :: string
  prompt_style :: string
  prompt_polish :: string
  style_guide :: string

definition prompts :: "scene_refiner \<Rightarrow> (string \<rightharpoonup> string)" where
  "prompts sr =
     [''cohesion'' \<mapsto> prompt_cohesion sr, ''style'' \<mapsto> prompt_style sr,
      ''polish'' \<mapsto> prompt_polish sr]"

definition run_pass ::
    "scene_refiner \<Rightarrow> formatter \<Rightarrow> backend \<Rightarrow> string \<Rightarrow> string \<Rightarrow> world \<Rightarrow>
       (py_error + string option) \<times> world" where
  "run_pass sr fmt be content pass_type w =
     (case prompts sr pass_type of
        None \<Rightarrow> (Inr None, w)
      | Some template \<Rightarrow>
          (let prompt_template =
                 (if pass_type = ''style''
                  then str_replace ''{style_guide_content}'' (style_guide sr) template
                  else template)
           in llm_refine_scene (sr_llm sr) fmt be prompt_template content pass_type w))"

definition get_stage_name :: "nat \<Rightarrow> nat \<Rightarrow> string" where
  "get_stage_name pass_num total_passes =
     (if pass_num < total_passes then ''refined'' else ''final'')"

text \<open>
  The loop of \<^verbatim>\<open>refine\<close> over the numbered passes still to run, with the current text.
  It ends with the text after the last pass, or with nothing when a pass fails.
\<close>

fun refine_passes ::
    "scene_refiner \<Rightarrow> formatter \<Rightarrow> backend \<Rightarrow> string \<Rightarrow> int \<Rightarrow> int \<Rightarrow> nat \<Rightarrow>
       (nat \<times> string) list \<Rightarrow> string \<Rightarrow> world \<Rightarrow> (py_error + string option) \<times> world" where
  "refine_passes sr fmt be book_name chapter scene total_passes [] current_content w =
     (Inr (Some current_content), w)"
| "refine_passes sr fmt be book_name chapter scene total_passes ((pass_num, pass_type) # rest)
     current_content w =
     (case run_pass sr fmt be current_content pass_type w of
        (Inl e, w1) \<Rightarrow> (Inl e, w1)
      | (Inr refined, w1) \<Rightarrow>
          if truthy refined then
            (let stage = get_stage_name pass_num total_passes;
                 output_path =
                   get_scene_path (sr_base sr) book_name chapter scene
                     (''v'' @ str_of_int (int pass_num + 1) @ ''_'' @ pass_type) stage;
                 w2 = save_text_file (the refined) output_path w1
             in refine_passes sr fmt be book_name chapter scene total_passes rest (the refined) w2)
          else (Inr None, w1))"

definition refine ::
    "scene_refiner \<Rightarrow> formatter \<Rightarrow> backend \<Rightarrow> world \<Rightarrow> string \<Rightarrow> string \<Rightarrow> int \<Rightarrow> int \<Rightarrow>
       string list option \<Rightarrow> (py_error + bool) \<times> world" where
  "refine sr fmt be w scene_path book_name chapter scene passes_arg =
     (let passes = (case passes_arg of None \<Rightarrow> [''cohesion'', ''style'', ''polish''] | Some ps \<Rightarrow> ps)
      in if \<not> path_exists w scene_path then (Inr False, w)
         else
           (case load_text_file w scene_path of
              Inl e \<Rightarrow> (Inl e, w)
            | Inr content \<Rightarrow>
                (case refine_passes sr fmt be book_name chapter scene (length passes)
                        (zip [1 ..< Suc (length passes)] passes) content w of
                   (Inl e, w1) \<Rightarrow> (Inl e, w1)
                 | (Inr None, w1) \<Rightarrow> (Inr False, w1)
                 | (Inr (Some current_content), w1) \<Rightarrow>
                     (Inr True,
                      save_text_file current_content
                        (get_scene_path (sr_base sr) book_name chapter scene ''FINAL'' ''final'')
                        w1))))"

subsection \<open>What a trace shows of the files\<close>

text \<open>The files written in a trace, in order: path and content.\<close>

fun writes :: "event list \<Rightarrow> (string \<times> string) list" where
  "writes [] = []"
| "writes (Write p c # es) = (p, c) # writes es"
| "writes (Generate m p r # es) = writes es"
| "writes (Sleep d # es) = writes es"

subsection \<open>A refiner whose model always answers\<close>

text \<open>A formatter for templates whose only braces are the field \<^verbatim>\<open>{scene_content}\<close>.\<close>

definition plain_format :: formatter where
  "plain_format template scene_content =
     Inr (str_replace ''{scene_content}'' scene_content template)"

definition demo_refiner :: scene_refiner where
  "demo_refiner =
     \<lparr>sr_base = ''/books'', sr_llm = two_try_manager,
      prompt_cohesion = ''Improve cohesion: {scene_content}'',
      prompt_style = ''Follow {style_guide_content}. Scene: {scene_content}'',
      prompt_polish = ''Polish: {scene_content}'',
      style_guide = ''short sentences''\<rparr>"

definition raw_scene_world :: world where
  "raw_scene_world =
     \<lparr>files = [(''/books/output/saga/scenes/raw/chapter_01_scene_01_v1.md'', ''A draft.'')],
      dirs = [], trace = []\<rparr>"

text \<open>A backend that answers every call, first with one text and then with another.\<close>

definition rewriting_backend :: backend where
  "rewriting_backend tr m p =
     Returns (if gen_calls tr = [] then ''A first rewrite.'' else ''A second rewrite.'')"

section \<open>assemble_chapter.py\<close>

text \<open>
  A \<^verbatim>\<open>ChapterAssembler\<close>: the base path of the project, the manager, and the entry
  \<^verbatim>\<open>smoothing_enabled\<close> of \<^verbatim>\<open>config['chapter']\<close>, which may be absent.
\<close>

record chapter_assembler =
  ca_base :: string
  ca_llm :: llm_manager
  smoothing_enabled :: "bool option"

text \<open>
  \<^verbatim>\<open>glob.glob\<close> of a directory (taken literally) joined with a pattern \<open>pre*suf\<close>: the
  paths in that directory whose name starts with \<open>pre\<close> and ends with \<open>suf\<close>.
\<close>

definition glob_star :: "world \<Rightarrow> string \<Rightarrow> string \<Rightarrow> string \<Rightarrow> string list" where
  "glob_star w dir pre suf =
     filter
       (\<lambda>q. startswith q (path_join2 dir []) \<and>
            (let name = drop (length (path_join2 dir [])) q in
               CHR ''/'' \<notin> set name \<and> startswith name pre \<and> endswith name suf \<and>
               length pre + length suf \<le> length name))
       (remdups (map fst (files w) @ dirs w))"

definition discover_scenes :: "chapter_assembler \<Rightarrow> world \<Rightarrow> string \<Rightarrow> int \<Rightarrow> string list" where
  "discover_scenes ca w book_name chapter =
     (let final_dir = get_project_path (ca_base ca) [''output'', book_name, ''scenes'', ''final''];
          scenes_dir =
            (if \<not> path_exists w final_dir then str_replace ''final'' ''refined'' final_dir
             else final_dir)
      in sort (glob_star w scenes_dir (''chapter_'' @ format_02d chapter @ ''_scene_'') ''_FINAL.md''))"

definition remove_scene_header :: "string \<Rightarrow> string" where
  "remove_scene_header content =
     (if startswith content ''---'' then
        (let parts = split_max ''---'' 2 content in
         if length parts \<ge> 3 then strip (parts ! 2) else content)
      else content)"

definition scene_separator :: string where
  "scene_separator = [NL, NL] @ ''---'' @ [NL, NL]"

definition chapter_header :: "int \<Rightarrow> string" where
  "chapter_header chapter = ''# Chapter '' @ str_of_int chapter @ [NL, NL]"

text \<open>The loop of \<^verbatim>\<open>_concatenate_scenes\<close> over the paths still to load, with the parts so far.\<close>

fun scene_parts :: "world \<Rightarrow> string list \<Rightarrow> string list \<Rightarrow> py_error + string list" where
  "scene_parts w [] parts = Inr parts"
| "scene_parts w (scene_path # rest) parts =
     (case load_text_file w scene_path of
        Inl e \<Rightarrow> Inl e
      | Inr content \<Rightarrow>
          if content = [] then scene_parts w rest parts
          else scene_parts w rest (parts @ [remove_scene_header content, scene_separator]))"

definition concatenate_scenes :: "world \<Rightarrow> string list \<Rightarrow> int \<Rightarrow> py_error + string" where
  "concatenate_scenes w scene_paths chapter =
     (case scene_parts w scene_paths [chapter_header chapter] of
        Inl e \<Rightarrow> Inl e
      | Inr parts \<Rightarrow>
          Inr (concat (if parts \<noteq> [] \<and> strip (last parts) = ''---'' then butlast parts else parts)))"

text \<open>The prompt of \<^verbatim>\<open>_smooth_chapter\<close>.\<close>

definition smoothing_prompt :: "string \<Rightarrow> string" where
  "smoothing_prompt content =
     ''This is a complete chapter assembled from individual scenes.'' @ [NL, NL] @
     ''Review and improve:'' @ [NL] @
     ''1. **Scene-to-scene transitions**: Ensure smooth flow between scenes'' @ [NL] @
     ''2. **Emotional arc**: Check that the chapter has a coherent emotional progression'' @ [NL] @
     ''3. **Pacing consistency**: Ensure pacing doesn't have jarring shifts'' @ [NL] @
     ''4. **Continuity**: Fix any small continuity issues between scenes'' @ [NL] @
     ''5. **Chapter-ending impact**: Ensure the chapter ends with appropriate impact'' @ [NL, NL] @
     ''Make MINIMAL changes to improve flow and coherence. Do not rewrite extensively.'' @ [NL] @
     ''Focus on transitions, pacing, and overall chapter unity.'' @ [NL, NL] @
     ''CHAPTER CONTENT:'' @ [NL] @ content @ [NL, NL] @
     ''OUTPUT:'' @ [NL] @
     ''Provide the smoothed chapter with improved transitions and flow.'' @ [NL]"

definition smooth_chapter ::
    "chapter_assembler \<Rightarrow> backend \<Rightarrow> string \<Rightarrow> int \<Rightarrow> world \<Rightarrow> string option \<times> world" where
  "smooth_chapter ca be content chapter w =
     (case generate_with_retry (ca_llm ca) be (smoothing_prompt content) ''review'' w of
        (smoothed, w1) \<Rightarrow> if truthy smoothed then (smoothed, w1) else (None, w1))"

definition assemble ::
    "chapter_assembler \<Rightarrow> backend \<Rightarrow> world \<Rightarrow> string \<Rightarrow> int \<Rightarrow> string list option \<Rightarrow> bool \<Rightarrow>
       (py_error + string option) \<times> world" where
  "assemble ca be w book_name chapter scene_paths_arg smooth =
     (let scene_paths =
            (case scene_paths_arg of
               None \<Rightarrow> discover_scenes ca w book_name chapter
             | Some ps \<Rightarrow> ps)
      in if scene_paths = [] then (Inr None, w)
         else
           (case concatenate_scenes w scene_paths chapter of
              Inl e \<Rightarrow> (Inl e, w)
            | Inr chapter_content \<Rightarrow>
                if chapter_content = [] then (Inr None, w)
                else
                  (let raw_path = get_chapter_path (ca_base ca) book_name chapter ''raw'';
                       w1 = save_text_file chapter_content raw_path w
                   in if smooth \<and> smoothing_enabled ca \<noteq> Some False then
                        (case smooth_chapter ca be chapter_content chapter w1 of
                           (smoothed, w2) \<Rightarrow>
                             if truthy smoothed then
                               (Inr smoothed,
                                save_text_file (the smoothed)
                                  (get_chapter_path (ca_base ca) book_name chapter ''v1'') w2)
                             else (Inr (Some chapter_content), w2))
                      else (Inr (Some chapter_content), w1))))"

subsection \<open>A book with two final scenes\<close>

definition two_scene_world :: world where
  "two_scene_world =
     \<lparr>files =
        [(''/books/output/saga/scenes/final/chapter_01_scene_02_FINAL.md'', ''Text B''),
         (''/books/output/saga/scenes/final/chapter_01_scene_01_FINAL.md'', ''Text A''),
         (''/books/output/saga/scenes/final/chapter_01_scene_01_v3_style.md'', ''Text A''),
         (''/books/output/saga/scenes/final/chapter_02_scene_01_FINAL.md'', ''Text C'')],
      dirs = [''/books/output/saga/chapters''], trace = []\<rparr>"

definition demo_assembler :: chapter_assembler where
  "demo_assembler = \<lparr>ca_base = ''/books'', ca_llm = two_try_manager, smoothing_enabled = None\<rparr>"

text \<open>The chapter the two scenes make.\<close>

definition chapter_one_text :: string where
  "chapter_one_text =
     ''# Chapter 1'' @ [NL, NL] @ ''Text A'' @ [NL, NL] @ ''---'' @ [NL, NL] @ ''Text B''"

text \<open>\<^verbatim>\<open>sep.join(xs)\<close>.\<close>

fun join_with :: "string \<Rightarrow> string list \<Rightarrow> string" where
  "join_with sep [] = []"
| "join_with sep [x] = x"
| "join_with sep (x # y # ys) = x @ sep @ join_with sep (y # ys)"

section \<open>memory_manager.py\<close>

subsection \<open>Values, clock readings and the digest\<close>

text \<open>A metadata dictionary maps keys to strings and integers.\<close>

datatype py_val = Str string | Num int

type_synonym metadata = "string \<rightharpoonup> py_val"

text \<open>A reading of \<^verbatim>\<open>datetime.now()\<close>.\<close>

record datetime =
  dt_year :: nat
  dt_month :: nat
  dt_day :: nat
  dt_hour :: nat
  dt_minute :: nat
  dt_second :: nat
  dt_microsecond :: nat

definition zero_pad :: "nat \<Rightarrow> nat \<Rightarrow> string" where
  "zero_pad width n = replicate (width - length (digits n)) CHR ''0'' @ digits n"

text \<open>
  \<^verbatim>\<open>strftime("%Y%m%d%H%M%S")\<close>. The year is printed by the C library, which on Linux
  does not pad it: a year below 1000 has fewer than four digits. The other fields have two
  digits each.
\<close>

definition strftime_compact :: "datetime \<Rightarrow> string" where
  "strftime_compact t =
     digits (dt_year t) @ zero_pad 2 (dt_month t) @ zero_pad 2 (dt_day t) @
     zero_pad 2 (dt_hour t) @ zero_pad 2 (dt_minute t) @ zero_pad 2 (dt_second t)"

text \<open>
  \<^verbatim>\<open>isoformat()\<close>: the year has four digits, and the microseconds are printed unless they
  are zero.
\<close>

definition isoformat :: "datetime \<Rightarrow> string" where
  "isoformat t =
     zero_pad 4 (dt_year t) @ ''-'' @ zero_pad 2 (dt_month t) @ ''-'' @ zero_pad 2 (dt_day t) @
     ''T'' @ zero_pad 2 (dt_hour t) @ '':'' @ zero_pad 2 (dt_minute t) @ '':'' @
     zero_pad 2 (dt_second t) @
     (if dt_microsecond t = 0 then [] else ''.'' @ zero_pad 6 (dt_microsecond t))"

text \<open>
  \<^verbatim>\<open>hashlib.md5(text.encode()).hexdigest()\<close> is an input of the model: a function from the
  text to its digest, a string of 32 hexadecimal digits.
\<close>

type_synonym digest = "string \<Rightarrow> string"

definition hash_text :: "digest \<Rightarrow> string \<Rightarrow> string" where
  "hash_text md5 text = md5 text"

text \<open>\<open>now\<close> is the reading of the clock inside \<^verbatim>\<open>_generate_id\<close>.\<close>

definition generate_id :: "digest \<Rightarrow> string \<Rightarrow> string \<Rightarrow> datetime \<Rightarrow> string" where
  "generate_id md5 text entry_type now =
     (let hash_str = hash_text md5 text;
          timestamp = strftime_compact now
      in entry_type @ ''_'' @ timestamp @ ''_'' @ take 8 hash_str)"

subsection \<open>The collection\<close>

text \<open>
  The ChromaDB collection is an input of the model: a state and the three operations the
  memory manager calls, each with one id, document and metadata. \<^verbatim>\<open>add\<close> and \<^verbatim>\<open>update\<close>
  give the state after the call and, when the call raises, the message of the exception.
  A query takes the text, the number of results and the \<^verbatim>\<open>where\<close> filter the manager
  builds, \<^verbatim>\<open>{"type": t}\<close> or \<^verbatim>\<open>{"type": {"$in": ts}}\<close>; it gives the results or the message
  of the exception.
\<close>

datatype where_filter = Type_is string | Type_in "string list"

record query_result =
  documents :: "string list list"
  metadatas :: "metadata list list"
  distances :: "rat list list"

record 's collection =
  coll_add :: "'s \<Rightarrow> string \<Rightarrow> string \<Rightarrow> metadata \<Rightarrow> string option \<times> 's"
  coll_update :: "'s \<Rightarrow> string \<Rightarrow> string \<Rightarrow> metadata \<Rightarrow> string option \<times> 's"
  coll_query :: "'s \<Rightarrow> string \<Rightarrow> int \<Rightarrow> where_filter option \<Rightarrow> string + query_result"

datatype db_type = Chromadb | Lancedb

datatype log_line = Log_error string | Log_debug string

text \<open>The state of a \<^verbatim>\<open>MemoryManager\<close>: the collection and the lines it has logged.\<close>

record 's memory =
  db :: 's
  logged :: "log_line list"

definition log_line :: "log_line \<Rightarrow> 's memory \<Rightarrow> 's memory" where
  "log_line l st = st\<lparr>logged := logged st @ [l]\<rparr>"

subsection \<open>add_entry\<close>

definition add_chromadb ::
    "'s collection \<Rightarrow> string \<Rightarrow> string \<Rightarrow> metadata \<Rightarrow> 's memory \<Rightarrow> 's memory" where
  "add_chromadb coll entry_id text metadata st =
     (case coll_add coll (db st) entry_id text metadata of
        (None, db1) \<Rightarrow> st\<lparr>db := db1\<rparr>
      | (Some e, db1) \<Rightarrow>
          (let st1 = log_line (Log_error (''Failed to add to ChromaDB: '' @ e)) (st\<lparr>db := db1\<rparr>) in
           case coll_update coll (db st1) entry_id text metadata of
             (None, db2) \<Rightarrow> st1\<lparr>db := db2\<rparr>
           | (Some e2, db2) \<Rightarrow>
               log_line (Log_error (''Failed to update in ChromaDB: '' @ e2)) (st1\<lparr>db := db2\<rparr>)))"

definition add_lancedb :: "string \<Rightarrow> string \<Rightarrow> metadata \<Rightarrow> 's memory \<Rightarrow> 's memory" where
  "add_lancedb entry_id text metadata st = st"

text \<open>
  \<open>stamp\<close> and \<open>now\<close> are the two readings of the clock, the first for the metadata and
  the second inside \<^verbatim>\<open>_generate_id\<close>. A missing or empty metadata argument stands for the
  empty dictionary. The call returns \<^verbatim>\<open>None\<close>.
\<close>

definition add_entry ::
    "'s collection \<Rightarrow> db_type \<Rightarrow> digest \<Rightarrow> string \<Rightarrow> string \<Rightarrow> metadata option \<Rightarrow>
       datetime \<Rightarrow> datetime \<Rightarrow> 's memory \<Rightarrow> (py_error + unit) \<times> 's memory" where
  "add_entry coll dbt md5 text entry_type metadata_arg stamp now st =
     (let metadata0 = (case metadata_arg of None \<Rightarrow> Map.empty | Some m \<Rightarrow> m);
          metadata =
            metadata0(''type'' \<mapsto> Str entry_type,
                      ''timestamp'' \<mapsto> Str (isoformat stamp),
                      ''text_hash'' \<mapsto> Str (hash_text md5 text));
          entry_id = generate_id md5 text entry_type now;
          st1 = (case dbt of
                   Chromadb \<Rightarrow> add_chromadb coll entry_id text metadata st
                 | Lancedb \<Rightarrow> add_lancedb entry_id text metadata st)
      in (Inr (), log_line (Log_debug (''Added '' @ entry_type @ '' entry: '' @ entry_id)) st1))"

subsection \<open>query\<close>

record hit =
  hit_text :: string
  hit_metadata :: metadata
  hit_distance :: rat

text \<open>
  The loop that formats the results. Indexing past the end of \<^verbatim>\<open>metas\<close> or \<^verbatim>\<open>distances\<close>
  raises inside the \<^verbatim>\<open>try\<close> block: no list is produced.
\<close>

fun format_hits :: "string list \<Rightarrow> metadata list \<Rightarrow> rat list \<Rightarrow> hit list option" where
  "format_hits [] metas dists = Some []"
| "format_hits (doc # docs) (m # metas) (d # dists) =
     map_option ((#) \<lparr>hit_text = doc, hit_metadata = m, hit_distance = d\<rparr>)
       (format_hits docs metas dists)"
| "format_hits (doc # docs) metas dists = None"

definition format_results :: "query_result \<Rightarrow> hit list option" where
  "format_results results =
     (if documents results \<noteq> [] then
        (case (metadatas results, distances results) of
           (metas # ms, dists # ds) \<Rightarrow> format_hits (hd (documents results)) metas dists
         | (ms, ds) \<Rightarrow> None)
      else Some [])"

definition query_chromadb ::
    "'s collection \<Rightarrow> string \<Rightarrow> string list \<Rightarrow> int \<Rightarrow> 's memory \<Rightarrow> hit list \<times> 's memory" where
  "query_chromadb coll query_text entry_types top_k st =
     (let where_filter =
            (if entry_types \<noteq> [] then
               (if length entry_types = 1 then Some (Type_is (entry_types ! 0))
                else Some (Type_in entry_types))
             else None)
      in case coll_query coll (db st) query_text top_k where_filter of
           Inl e \<Rightarrow> ([], log_line (Log_error (''Query failed: '' @ e)) st)
         | Inr results \<Rightarrow>
             (case format_results results of
                None \<Rightarrow> ([], log_line (Log_error ''Query failed: list index out of range'') st)
              | Some formatted \<Rightarrow>
                  (formatted,
                   log_line
                     (Log_debug (''Retrieved '' @ str_of_int (int (length formatted)) @
                                 '' relevant entries''))
                     st)))"

definition query_lancedb :: "string \<Rightarrow> string list \<Rightarrow> int \<Rightarrow> 's memory \<Rightarrow> hit list \<times> 's memory" where
  "query_lancedb query_text entry_types top_k st = ([], st)"

definition query ::
    "'s collection \<Rightarrow> db_type \<Rightarrow> string \<Rightarrow> string list option \<Rightarrow> int \<Rightarrow> 's memory \<Rightarrow>
       hit list \<times> 's memory" where
  "query coll dbt query_text entry_types_arg top_k st =
     (let entry_types = (case entry_types_arg of None \<Rightarrow> [] | Some ts \<Rightarrow> ts)
      in case dbt of
           Chromadb \<Rightarrow> query_chromadb coll query_text entry_types top_k st
         | Lancedb \<Rightarrow> query_lancedb query_text entry_types top_k st)"

subsection \<open>What the collection is asked to store\<close>

text \<open>
  A metadata passes a filter when its entry \<^verbatim>\<open>type\<close> is the given type, or one of the given
  types.
\<close>

definition matches :: "where_filter \<Rightarrow> metadata \<Rightarrow> bool" where
  "matches f m =
     (case f of
        Type_is t \<Rightarrow> m ''type'' = Some (Str t)
      | Type_in ts \<Rightarrow> list_ex (\<lambda>t. m ''type'' = Some (Str t)) ts)"

text \<open>
  A collection that also keeps the requests it receives: each \<^verbatim>\<open>add\<close> and \<^verbatim>\<open>update\<close> is
  noted with its id, document and metadata, and passed on.
\<close>

record 's recorder =
  inner :: 's
  requests :: "(string \<times> string \<times> metadata) list"

definition recording :: "'s collection \<Rightarrow> 's recorder collection" where
  "recording coll =
     \<lparr>coll_add = (\<lambda>r entry_id doc m.
          case coll_add coll (inner r) entry_id doc m of
            (e, s) \<Rightarrow> (e, \<lparr>inner = s, requests = requests r @ [(entry_id, doc, m)]\<rparr>)),
      coll_update = (\<lambda>r entry_id doc m.
          case coll_update coll (inner r) entry_id doc m of
            (e, s) \<Rightarrow> (e, \<lparr>inner = s, requests = requests r @ [(entry_id, doc, m)]\<rparr>)),
      coll_query = (\<lambda>r. coll_query coll (inner r))\<rparr>"

subsection \<open>A collection kept as a list\<close>

text \<open>
  A collection for running the manager: the entries (id, document, metadata) in the order
  they came, one per id. Adding an id that is there already raises or is ignored, as the
  policy says; an update replaces the entry of the id, if there is one. A query keeps the
  entries that pass the filter, orders them by a distance to the query text (here the
  difference of the lengths) and gives the first \<^verbatim>\<open>n_results\<close>.
\<close>

datatype duplicate_policy = Raise_on_duplicate | Ignore_duplicate

type_synonym entries = "(string \<times> string \<times> metadata) list"

definition list_add ::
    "duplicate_policy \<Rightarrow> entries \<Rightarrow> string \<Rightarrow> string \<Rightarrow> metadata \<Rightarrow> string option \<times> entries" where
  "list_add pol es entry_id doc m =
     (if entry_id \<in> set (map fst es) then
        (case pol of
           Raise_on_duplicate \<Rightarrow> (Some (''ID already exists: '' @ entry_id), es)
         | Ignore_duplicate \<Rightarrow> (None, es))
      else (None, es @ [(entry_id, doc, m)]))"

definition list_update ::
    "entries \<Rightarrow> string \<Rightarrow> string \<Rightarrow> metadata \<Rightarrow> string option \<times> entries" where
  "list_update es entry_id doc m =
     (None, map (\<lambda>e. if fst e = entry_id then (entry_id, doc, m) else e) es)"

definition text_distance :: "string \<Rightarrow> string \<Rightarrow> rat" where
  "text_distance q doc = of_int \<bar>int (length q) - int (length doc)\<bar>"

definition list_query ::
    "entries \<Rightarrow> string \<Rightarrow> int \<Rightarrow> where_filter option \<Rightarrow> string + query_result" where
  "list_query es q n f =
     (if n \<le> 0 then Inl ''Number of requested results must be positive''
      else
        (let kept = filter (\<lambda>e. case f of None \<Rightarrow> True | Some g \<Rightarrow> matches g (snd (snd e))) es;
             ranked = take (nat n) (sort_key (\<lambda>e. text_distance q (fst (snd e))) kept)
         in Inr \<lparr>documents = [map (\<lambda>e. fst (snd e)) ranked],
                 metadatas = [map (\<lambda>e. snd (snd e)) ranked],
                 distances = [map (\<lambda>e. text_distance q (fst (snd e))) ranked]\<rparr>))"

definition list_collection :: "duplicate_policy \<Rightarrow> entries collection" where
  "list_collection pol =
     \<lparr>coll_add = list_add pol, coll_update = list_update, coll_query = list_query\<rparr>"

text \<open>A collection whose disk is full: every \<^verbatim>\<open>add\<close> and \<^verbatim>\<open>update\<close> raises.\<close>

definition full_disk_collection :: "entries collection" where
  "full_disk_collection =
     \<lparr>coll_add = (\<lambda>es entry_id doc m. (Some ''disk full'', es)),
      coll_update = (\<lambda>es entry_id doc m. (Some ''disk full'', es)),
      coll_query = list_query\<rparr>"

subsection \<open>A character note and two clock readings\<close>

text \<open>A digest that is MD5 on the two notes below.\<close>

definition note_digest :: digest where
  "note_digest text =
     (if text = ''Mara distrusts the river folk.'' then ''7d926b95c8019b23f782cef0b85245af''
      else if text = ''The bridge at Dunmere burned.'' then ''e57f554ed2894cafb0bbb65afc7e8c95''
      else ''d41d8cd98f00b204e9800998ecf8427e'')"

definition noon :: datetime where
  "noon = \<lparr>dt_year = 2025, dt_month = 3, dt_day = 14, dt_hour = 12, dt_minute = 0,
            dt_second = 0, dt_microsecond = 0\<rparr>"



definition empty_memory :: "entries memory" where
  "empty_memory = \<lparr>db = [], logged = []\<rparr>"

text \<open>A memory with a character note and a note about the world.\<close>

definition two_note_memory :: "entries memory" where
  "two_note_memory =
     snd (add_entry (list_collection Raise_on_duplicate) Chromadb note_digest
            ''The bridge at Dunmere burned.'' ''world'' None noon noon
       (snd (add_entry (list_collection Raise_on_duplicate) Chromadb note_digest
               ''Mara distrusts the river folk.'' ''character''
               (Some [''character'' \<mapsto> Str ''Mara'', ''type'' \<mapsto> Str ''world''])
               noon noon empty_memory)))"

subsection \<open>Clock readings within one second\<close>




section \<open>Properties of utils.py\<close>

text \<open>
  C9. \<^verbatim>\<open>validate_word_count\<close> fails to return exactly when the target is zero and the
  word count of the text lies within \<open>[min_words, max_words]\<close>: the valid branch divides by
  the target, so the call raises \<^verbatim>\<open>ZeroDivisionError\<close> there; with every other input it
  returns a result, and the result of an in-range text with a non-zero target is valid.
\<close>

theorem validate_word_count_zero_target:
  "((validate_word_count text target min_words max_words = Inl ZeroDivisionError) =
      (target = 0 \<and> min_words \<le> int (count_words text) \<and> int (count_words text) \<le> max_words)) \<and>
   ((\<exists>r. validate_word_count text target min_words max_words = Inr r) =
      (\<not> (target = 0 \<and> min_words \<le> int (count_words text) \<and> int (count_words text) \<le> max_words))) \<and>
   (target \<noteq> 0 \<and> min_words \<le> int (count_words text) \<and> int (count_words text) \<le> max_words \<longrightarrow>
      (\<exists>message. validate_word_count text target min_words max_words =
         Inr (True, int (count_words text), message)))"
  by (auto simp: validate_word_count_def Let_def)

theorem validate_word_count_zero_target_witness:
  "validate_word_count ''One two three.'' 0 1 5 = Inl ZeroDivisionError \<and>
   (\<exists>r. validate_word_count ''One two three.'' 4 1 5 = Inr r) \<and>
   (\<exists>r. validate_word_count ''One two three.'' 0 4 5 = Inr r)"
proof -
  have "count_words ''One two three.'' = 3" by code_simp
  with validate_word_count_zero_target [of "''One two three.''" 0 1 5]
    validate_word_count_zero_target [of "''One two three.''" 4 1 5]
    validate_word_count_zero_target [of "''One two three.''" 0 4 5]
  show ?thesis by simp
qed

section \<open>Properties of llm_client.py\<close>

lemma gen_calls_append: "gen_calls (xs @ ys) = gen_calls xs @ gen_calls ys"
  by (induction xs rule: gen_calls.induct) simp_all

lemma first_success_seq:
  "first_success s1 cs1 None \<Longrightarrow> first_success s2 cs2 r \<Longrightarrow> first_success (s1 @ s2) (cs1 @ cs2) r"
  by (cases r) (auto simp: first_success_def butlast_append)

lemma first_success_stop:
  "first_success s1 cs (Some t) \<Longrightarrow> first_success (s1 @ s2) cs (Some t)"
  by (auto simp: first_success_def)

lemma strip_nonempty: "strip t \<noteq> [] \<Longrightarrow> t \<noteq> []"
  by (auto simp: strip_def)

lemma try_attempts_first_success:
  "try_attempts mgr be m p atts w = (res, w') \<Longrightarrow>
     \<exists>evs. w' = w\<lparr>trace := trace w @ evs\<rparr> \<and>
           first_success (replicate (length atts) m) (gen_calls evs) res"
proof (induction atts arbitrary: w)
  case Nil
  then show ?case by (auto simp: first_success_def intro: exI [of _ "[]"])
next
  case (Cons a atts)
  show ?case
  proof (cases "be (trace w) m p")
    case Raises
    define w1 where "w1 = (if int a < max_retries mgr - 1
       then emit (Sleep (retry_delay mgr)) (emit (Generate m p Raises) w) else emit (Generate m p Raises) w)"
    from Cons.prems Raises have "try_attempts mgr be m p atts w1 = (res, w')"
      by (simp add: w1_def Let_def)
    from Cons.IH [OF this] obtain evs where evs: "w' = w1\<lparr>trace := trace w1 @ evs\<rparr>"
      "first_success (replicate (length atts) m) (gen_calls evs) res" by blast
    obtain pre where pre: "w1 = w\<lparr>trace := trace w @ pre\<rparr>" "gen_calls pre = [(m, Raises)]"
      by (cases "int a < max_retries mgr - 1") (auto simp: w1_def emit_def)
    have "first_success [m] (gen_calls pre) None"
      by (simp add: pre first_success_def failed_def)
    from first_success_seq [OF this evs(2)]
    have "first_success (replicate (length (a # atts)) m) (gen_calls (pre @ evs)) res"
      by (simp add: gen_calls_append)
    moreover have "w' = w\<lparr>trace := trace w @ (pre @ evs)\<rparr>"
      by (simp add: evs(1) pre(1))
    ultimately show ?thesis by blast
  next
    case (Returns t)
    show ?thesis
    proof (cases "strip t = []")
      case True
      define w1 where "w1 = emit (Generate m p (Returns t)) w"
      from Cons.prems Returns True have "try_attempts mgr be m p atts w1 = (res, w')"
        by (auto simp: w1_def Let_def)
      from Cons.IH [OF this] obtain evs where evs: "w' = w1\<lparr>trace := trace w1 @ evs\<rparr>"
        "first_success (replicate (length atts) m) (gen_calls evs) res" by blast
      have "first_success [m] (gen_calls [Generate m p (Returns t)]) None"
        by (simp add: first_success_def failed_def True)
      from first_success_seq [OF this evs(2)]
      have "first_success (replicate (length (a # atts)) m) (gen_calls ([Generate m p (Returns t)] @ evs)) res"
        by (simp add: gen_calls_append)
      moreover have "w' = w\<lparr>trace := trace w @ ([Generate m p (Returns t)] @ evs)\<rparr>"
        by (simp add: evs(1) w1_def emit_def)
      ultimately show ?thesis by blast
    next
      case False
      with Cons.prems Returns have "res = Some t" "w' = emit (Generate m p (Returns t)) w"
        using strip_nonempty [OF False] by (auto simp: Let_def)
      then show ?thesis using False
        by (auto simp: first_success_def emit_def intro!: exI [of _ "[Generate m p (Returns t)]"])
    qed
  qed
qed


lemma try_attempts_delays:
  "try_attempts mgr be m p atts w = (res, w') \<Longrightarrow> atts = [a ..< nat (max_retries mgr)] \<Longrightarrow>
     \<exists>evs. trace w' = trace w @ evs \<and> delays_ok (retry_delay mgr) evs"
proof (induction atts arbitrary: w a)
  case Nil
  then show ?case by simp
next
  case (Cons x atts)
  from Cons.prems(2) [symmetric] have x: "x = a" "a < nat (max_retries mgr)" and
    atts: "atts = [Suc a ..< nat (max_retries mgr)]"
    by (auto simp: upt_eq_Cons_conv)
  show ?case
  proof (cases "be (trace w) m p")
    case Raises
    show ?thesis
    proof (cases "int a < max_retries mgr - 1")
      case True
      with Cons.prems(1) Raises x have
        "try_attempts mgr be m p atts
           (emit (Sleep (retry_delay mgr)) (emit (Generate m p Raises) w)) = (res, w')"
        by (simp add: Let_def)
      from Cons.IH [OF this atts] obtain evs where
        "trace w' = trace w @ Generate m p Raises # Sleep (retry_delay mgr) # evs"
        "delays_ok (retry_delay mgr) evs"
        by (auto simp: emit_def)
      then show ?thesis by simp
    next
      case False
      with x have "atts = []" using atts by simp
      with Cons.prems(1) Raises x False have "trace w' = trace w @ [Generate m p Raises]"
        by (auto simp: Let_def emit_def)
      then show ?thesis by simp
    qed
  next
    case (Returns t)
    show ?thesis
    proof (cases "strip t = []")
      case True
      with Cons.prems(1) Returns have
        "try_attempts mgr be m p atts (emit (Generate m p (Returns t)) w) = (res, w')"
        by (auto simp: Let_def)
      from Cons.IH [OF this atts] obtain evs where
        "trace w' = trace w @ Generate m p (Returns t) # evs" "delays_ok (retry_delay mgr) evs"
        by (auto simp: emit_def)
      then show ?thesis by simp
    next
      case False
      with Cons.prems(1) Returns have "trace w' = trace w @ [Generate m p (Returns t)]"
        using strip_nonempty [OF False] by (auto simp: Let_def emit_def)
      then show ?thesis by simp
    qed
  qed
qed

lemma try_generate_result:
  "try_generate mgr be m p w = (res, w') \<Longrightarrow> truthy res = (res \<noteq> None)"
  by (cases res)
     (auto simp: try_generate_def first_success_def dest!: try_attempts_first_success strip_nonempty)

lemma try_chain_first_success:
  "try_chain mgr be p ms w = (res, w') \<Longrightarrow>
     \<exists>evs. w' = w\<lparr>trace := trace w @ evs\<rparr> \<and>
           first_success (concat (map (replicate (nat (max_retries mgr))) ms)) (gen_calls evs) res"
proof (induction ms arbitrary: w)
  case Nil
  then show ?case by (auto simp: first_success_def intro: exI [of _ "[]"])
next
  case (Cons m ms)
  obtain r1 w1 where run: "try_generate mgr be m p w = (r1, w1)"
    by (cases "try_generate mgr be m p w")
  from run obtain evs1 where evs1: "w1 = w\<lparr>trace := trace w @ evs1\<rparr>"
    "first_success (replicate (nat (max_retries mgr)) m) (gen_calls evs1) r1"
    unfolding try_generate_def by (auto dest!: try_attempts_first_success)
  show ?case
  proof (cases r1)
    case None
    with Cons.prems run have "try_chain mgr be p ms w1 = (res, w')" by simp
    from Cons.IH [OF this] obtain evs2 where evs2: "w' = w1\<lparr>trace := trace w1 @ evs2\<rparr>"
      "first_success (concat (map (replicate (nat (max_retries mgr))) ms)) (gen_calls evs2) res"
      by blast
    from first_success_seq [OF evs1(2) [unfolded None] evs2(2)]
    have "first_success (concat (map (replicate (nat (max_retries mgr))) (m # ms)))
            (gen_calls (evs1 @ evs2)) res"
      by (simp add: gen_calls_append)
    moreover have "w' = w\<lparr>trace := trace w @ (evs1 @ evs2)\<rparr>"
      by (simp add: evs1(1) evs2(1))
    ultimately show ?thesis by blast
  next
    case (Some t)
    with try_generate_result [OF run] Cons.prems run have "res = Some t" "w' = w1" by auto
    with evs1 Some first_success_stop show ?thesis by auto
  qed
qed

lemma try_alternatives_chain:
  "try_alternatives mgr be p alts w = try_chain mgr be p (map Some alts) w"
  by (induction alts arbitrary: w) (auto split: prod.splits)

lemma generate_with_retry_chain:
  "generate_with_retry mgr be p key w = try_chain mgr be p (chain (get_model_config mgr key)) w"
  by (auto simp: generate_with_retry_def chain_def Let_def try_alternatives_chain split: prod.splits)

lemma try_attempts_always_failing:
  "(\<And>tr. failed (be tr m p)) \<Longrightarrow> fst (try_attempts mgr be m p atts w) = None"
proof (induction atts arbitrary: w)
  case Nil
  show ?case by simp
next
  case (Cons a atts)
  from Cons.prems [of "trace w"] Cons.IH [OF Cons.prems] show ?case
    by (cases "be (trace w) m p") (auto simp: failed_def Let_def strip_def)
qed

lemma try_attempts_succeeding:
  "be (trace w) m p = Returns out \<Longrightarrow> strip out \<noteq> [] \<Longrightarrow> atts \<noteq> [] \<Longrightarrow>
     fst (try_attempts mgr be m p atts w) = Some out"
  using strip_nonempty by (cases atts) (auto simp: Let_def)

lemma strip_blank: "strip '' '' = []" "strip ''Once upon a time'' \<noteq> []"
  by (simp_all add: strip_def py_isspace_def)

text \<open>
  C1. \<^verbatim>\<open>generate_with_retry\<close> asks the models of the configured chain in the fixed order:
  the primary first, the fallback once the primary's attempts are used up, then the
  alternatives in list order, each at most \<^verbatim>\<open>max_retries\<close> times. It returns the first
  answer that is not empty after stripping, and asks nothing after it; with no such answer
  it has asked the whole chain and returns nothing. On a chain of three models whose
  first two always fail and whose third answers, the result is the third model's text.
\<close>

theorem generate_with_retry_order:
  assumes "generate_with_retry mgr be prompt key w = (res, w')"
  shows "(\<exists>evs. w' = w\<lparr>trace := trace w @ evs\<rparr> \<and>
            first_success (schedule mgr (get_model_config mgr key)) (gen_calls evs) res) \<and>
         (chain (get_model_config mgr key) = [a, b, c] \<and> 0 < max_retries mgr \<and>
          (\<forall>tr. failed (be tr a prompt)) \<and> (\<forall>tr. failed (be tr b prompt)) \<and>
          (\<forall>tr. be tr c prompt = Returns out) \<and> strip out \<noteq> [] \<longrightarrow> res = Some out)"
proof (intro conjI impI)
  from assms show "\<exists>evs. w' = w\<lparr>trace := trace w @ evs\<rparr> \<and>
      first_success (schedule mgr (get_model_config mgr key)) (gen_calls evs) res"
    unfolding generate_with_retry_chain schedule_def by (rule try_chain_first_success)
next
  assume h: "chain (get_model_config mgr key) = [a, b, c] \<and> 0 < max_retries mgr \<and>
          (\<forall>tr. failed (be tr a prompt)) \<and> (\<forall>tr. failed (be tr b prompt)) \<and>
          (\<forall>tr. be tr c prompt = Returns out) \<and> strip out \<noteq> []"
  obtain r1 w1 where r1: "try_generate mgr be a prompt w = (r1, w1)"
    by (cases "try_generate mgr be a prompt w")
  obtain r2 w2 where r2: "try_generate mgr be b prompt w1 = (r2, w2)"
    by (cases "try_generate mgr be b prompt w1")
  obtain r3 w3 where r3: "try_generate mgr be c prompt w2 = (r3, w3)"
    by (cases "try_generate mgr be c prompt w2")
  from h have "fst (try_generate mgr be a prompt w) = None"
    unfolding try_generate_def by (intro try_attempts_always_failing) simp
  with r1 have n1: "r1 = None" by simp
  from h have "fst (try_generate mgr be b prompt w1) = None"
    unfolding try_generate_def by (intro try_attempts_always_failing) simp
  with r2 have n2: "r2 = None" by simp
  from h have "fst (try_generate mgr be c prompt w2) = Some out"
    unfolding try_generate_def by (intro try_attempts_succeeding) auto
  with r3 have n3: "r3 = Some out" by simp
  from h strip_nonempty have "out \<noteq> []" by blast
  with assms h r1 r2 r3 n1 n2 n3 show "res = Some out"
    by (simp add: generate_with_retry_chain)
qed

theorem generate_with_retry_order_witness:
  "fst (generate_with_retry two_try_manager only_c_answers ''Write the scene.'' ''prose'' empty_world)
     = Some ''Once upon a time''"
proof -
  obtain res w' where run:
    "generate_with_retry two_try_manager only_c_answers ''Write the scene.'' ''prose'' empty_world
       = (res, w')"
    by (cases "generate_with_retry two_try_manager only_c_answers ''Write the scene.'' ''prose'' empty_world")
  have "chain (get_model_config two_try_manager ''prose'') = [Some ''model-a'', Some ''model-b'', Some ''model-c'']"
    by (simp add: chain_def get_model_config_def models_cfg_def two_try_manager_def
        three_model_cfg_def py_or_def)
  moreover have "0 < max_retries two_try_manager" by (simp add: two_try_manager_def)
  moreover have "\<forall>tr. failed (only_c_answers tr (Some ''model-a'') ''Write the scene.'')"
    by (simp add: only_c_answers_def failed_def)
  moreover have "\<forall>tr. failed (only_c_answers tr (Some ''model-b'') ''Write the scene.'')"
    by (simp add: only_c_answers_def failed_def strip_blank)
  moreover have "\<forall>tr. only_c_answers tr (Some ''model-c'') ''Write the scene.'' = Returns ''Once upon a time''"
    by (simp add: only_c_answers_def)
  ultimately have "res = Some ''Once upon a time''"
    using generate_with_retry_order [OF run, of "Some ''model-a''" "Some ''model-b''" "Some ''model-c''" "''Once upon a time''"]
      strip_blank(2) by blast
  with run show ?thesis by simp
qed

text \<open>
  C3. Within one model, \<^verbatim>\<open>_try_generate\<close> makes at most \<^verbatim>\<open>max_retries\<close> attempts. An
  attempt fails when the backend raises and when the text is empty or blank: the result
  is the text of the first attempt that does neither, and without such an attempt all
  \<^verbatim>\<open>max_retries\<close> attempts are made and nothing is returned. An attempt that raised,
  unless it is the last one, is followed by a sleep of the configured delay before the
  next attempt.
\<close>

theorem try_generate_attempts:
  assumes "try_generate mgr be m prompt w = (res, w')"
  shows "\<exists>evs. w' = w\<lparr>trace := trace w @ evs\<rparr> \<and>
           length (gen_calls evs) \<le> nat (max_retries mgr) \<and>
           first_success (replicate (nat (max_retries mgr)) m) (gen_calls evs) res \<and>
           delays_ok (retry_delay mgr) evs"
proof -
  from assms obtain evs where evs: "w' = w\<lparr>trace := trace w @ evs\<rparr>"
    "first_success (replicate (nat (max_retries mgr)) m) (gen_calls evs) res"
    unfolding try_generate_def by (auto dest!: try_attempts_first_success)
  from assms obtain evs' where evs': "trace w' = trace w @ evs'" "delays_ok (retry_delay mgr) evs'"
    unfolding try_generate_def by (blast dest: try_attempts_delays)
  from evs(1) evs'(1) have same: "evs' = evs" by simp
  have "length (map fst (gen_calls evs)) \<le> length (replicate (nat (max_retries mgr)) m)"
    using evs(2) by (cases res) (auto simp: first_success_def dest: prefix_length_le)
  then have "length (gen_calls evs) \<le> nat (max_retries mgr)" by simp
  with evs evs'(2) same show ?thesis by blast
qed

theorem try_generate_attempts_witness:
  "\<exists>evs. snd (try_generate two_try_manager only_c_answers (Some ''model-a'') ''Write the scene.'' empty_world)
            = empty_world\<lparr>trace := evs\<rparr> \<and>
         length (gen_calls evs) \<le> 2 \<and> delays_ok 2 evs"
proof -
  obtain res w' where run:
    "try_generate two_try_manager only_c_answers (Some ''model-a'') ''Write the scene.'' empty_world = (res, w')"
    by (cases "try_generate two_try_manager only_c_answers (Some ''model-a'') ''Write the scene.'' empty_world")
  from try_generate_attempts [OF run] run show ?thesis
    by (auto simp: two_try_manager_def empty_world_def)
qed

text \<open>
  After an empty answer the next attempt follows at once: two attempts of one model with
  no sleep between them.
\<close>

theorem try_generate_no_delay_after_empty:
  "trace (snd (try_generate two_try_manager silent_backend (Some ''model-a'') ''Write the scene.'' empty_world))
     = [Generate (Some ''model-a'') ''Write the scene.'' (Returns []),
        Generate (Some ''model-a'') ''Write the scene.'' (Returns [])]"
  by code_simp

section \<open>Properties of generate_scene.py\<close>

lemma validation_attempts_step:
  assumes "k < n"
  shows "validation_attempts sg be prompt target [k ..< n] (attempt_world sg be prompt k w) =
     (if \<not> truthy (attempt_output sg be prompt k w)
      then validation_attempts sg be prompt target [Suc k ..< n]
             (attempt_world sg be prompt (Suc k) w)
      else
        (case validate_word_count (the (attempt_output sg be prompt k w)) target
                (scene_min_words (sg_scene sg)) (scene_max_words (sg_scene sg)) of
           Inl e \<Rightarrow> (Inl e, attempt_world sg be prompt (Suc k) w)
         | Inr (valid, word_count, message) \<Rightarrow>
             if valid then (Inr (attempt_output sg be prompt k w),
                            attempt_world sg be prompt (Suc k) w)
             else if int k < scene_max_retries (sg_scene sg) - 1
             then validation_attempts sg be prompt target [Suc k ..< n]
                    (attempt_world sg be prompt (Suc k) w)
             else (Inr (attempt_output sg be prompt k w),
                   attempt_world sg be prompt (Suc k) w)))"
proof -
  obtain prose w1 where gen:
    "generate_with_retry (sg_llm sg) be prompt ''prose'' (attempt_world sg be prompt k w) =
       (prose, w1)"
    by (cases "generate_with_retry (sg_llm sg) be prompt ''prose''
                 (attempt_world sg be prompt k w)")
  then have out: "attempt_output sg be prompt k w = prose"
    and w1: "attempt_world sg be prompt (Suc k) w = w1"
    by (simp_all add: attempt_output_def)
  from assms have "[k ..< n] = k # [Suc k ..< n]" by (rule upt_conv_Cons)
  then show ?thesis
    unfolding out w1 by (simp add: gen)
qed

lemma validation_attempts_skip:
  assumes "k \<le> n" and "n = nat (scene_max_retries (sg_scene sg))"
    and "\<forall>j<k. retried sg target j (attempt_output sg be prompt j w)"
  shows "generate_with_validation sg be prompt target w =
           validation_attempts sg be prompt target [k ..< n] (attempt_world sg be prompt k w)"
  using assms
proof (induction k)
  case 0
  then show ?case by (simp add: generate_with_validation_def)
next
  case (Suc k)
  then have IH: "generate_with_validation sg be prompt target w =
      validation_attempts sg be prompt target [k ..< n] (attempt_world sg be prompt k w)"
    and k: "k < n" and r: "retried sg target k (attempt_output sg be prompt k w)"
    by simp_all
  show ?case
  proof (cases "attempt_output sg be prompt k w")
    case None
    with IH k show ?thesis by (simp add: validation_attempts_step)
  next
    case (Some prose)
    show ?thesis
    proof (cases "prose = []")
      case True
      with IH k Some show ?thesis by (simp add: validation_attempts_step)
    next
      case False
      with r Some have f: "fails_validation sg target prose"
        and more: "Suc k < nat (scene_max_retries (sg_scene sg))"
        by (simp_all add: retried_def)
      from more have "int k < scene_max_retries (sg_scene sg) - 1" by simp
      with IH k Some False f show ?thesis
        by (auto simp: validation_attempts_step fails_validation_def split: sum.splits)
    qed
  qed
qed

lemma validation_attempts_world:
  "k \<le> n \<Longrightarrow> \<exists>k'. k \<le> k' \<and> k' \<le> n \<and>
     snd (validation_attempts sg be prompt target [k ..< n] (attempt_world sg be prompt k w)) =
       attempt_world sg be prompt k' w"
proof (induction "n - k" arbitrary: k)
  case 0
  then show ?case by (intro exI [of _ k]) simp
next
  case (Suc d)
  then have k: "k < n" and d: "d = n - Suc k" and le: "Suc k \<le> n" by simp_all
  from Suc.hyps(1) [OF d le] obtain k' where k': "Suc k \<le> k'" "k' \<le> n"
    "snd (validation_attempts sg be prompt target [Suc k ..< n]
        (attempt_world sg be prompt (Suc k) w)) = attempt_world sg be prompt k' w"
    by blast
  have "snd (validation_attempts sg be prompt target [k ..< n] (attempt_world sg be prompt k w))
      = attempt_world sg be prompt k' w \<or>
    snd (validation_attempts sg be prompt target [k ..< n] (attempt_world sg be prompt k w))
      = attempt_world sg be prompt (Suc k) w"
    using k'(3) by (auto simp: validation_attempts_step [OF k] split: sum.splits)
  with k' le show ?case by (metis Suc_leD le_refl)
qed

text \<open>
  C8. \<^verbatim>\<open>_generate_with_validation\<close> makes at most \<^verbatim>\<open>max_retries\<close> full generation attempts.
  An attempt that produced nothing, or a prose whose word count fails validation while
  another attempt is left, is retried: when the first \<open>k\<close> attempts are of that kind, the
  next attempt is made and decides. Its non-empty output is returned when it passes
  validation, and also when it fails validation on the final attempt: the final output is
  accepted though its word count is out of range. An exception of the validation ends the
  call, and when every attempt was retried the call returns \<^verbatim>\<open>None\<close>. In each case the
  attempts made are the first \<open>k + 1\<close>, or all of them.
\<close>

theorem generate_with_validation_attempts:
  "(\<exists>k \<le> nat (scene_max_retries (sg_scene sg)).
      snd (generate_with_validation sg be prompt target w) = attempt_world sg be prompt k w) \<and>
   (\<forall>k. k \<le> nat (scene_max_retries (sg_scene sg)) \<and>
        (\<forall>j<k. retried sg target j (attempt_output sg be prompt j w)) \<longrightarrow>
      (k = nat (scene_max_retries (sg_scene sg)) \<longrightarrow>
         generate_with_validation sg be prompt target w =
           (Inr None, attempt_world sg be prompt k w)) \<and>
      (\<forall>prose. k < nat (scene_max_retries (sg_scene sg)) \<and>
           attempt_output sg be prompt k w = Some prose \<and> prose \<noteq> [] \<longrightarrow>
         (passes_validation sg target prose \<or>
          fails_validation sg target prose \<and> Suc k = nat (scene_max_retries (sg_scene sg)) \<longrightarrow>
            generate_with_validation sg be prompt target w =
              (Inr (Some prose), attempt_world sg be prompt (Suc k) w)) \<and>
         (\<forall>e. validate_word_count prose target (scene_min_words (sg_scene sg))
                 (scene_max_words (sg_scene sg)) = Inl e \<longrightarrow>
            generate_with_validation sg be prompt target w =
              (Inl e, attempt_world sg be prompt (Suc k) w))))"
proof -
  define n where "n = nat (scene_max_retries (sg_scene sg))"
  have made: "\<exists>k\<le>n. snd (generate_with_validation sg be prompt target w) =
      attempt_world sg be prompt k w"
    using validation_attempts_world [of 0 n sg be prompt target w]
    by (auto simp: generate_with_validation_def n_def)
  have decided:
    "(k = n \<longrightarrow> generate_with_validation sg be prompt target w =
           (Inr None, attempt_world sg be prompt k w)) \<and>
      (\<forall>prose. k < n \<and> attempt_output sg be prompt k w = Some prose \<and> prose \<noteq> [] \<longrightarrow>
         (passes_validation sg target prose \<or> fails_validation sg target prose \<and> Suc k = n \<longrightarrow>
            generate_with_validation sg be prompt target w =
              (Inr (Some prose), attempt_world sg be prompt (Suc k) w)) \<and>
         (\<forall>e. validate_word_count prose target (scene_min_words (sg_scene sg))
                 (scene_max_words (sg_scene sg)) = Inl e \<longrightarrow>
            generate_with_validation sg be prompt target w =
              (Inl e, attempt_world sg be prompt (Suc k) w)))"
    if k: "k \<le> n" and skipped: "\<forall>j<k. retried sg target j (attempt_output sg be prompt j w)"
    for k
  proof -
    note skip = validation_attempts_skip [OF k n_def skipped]
    have last: "\<not> int k < scene_max_retries (sg_scene sg) - 1" if "Suc k = n"
      using that by (simp add: n_def)
    show ?thesis
      using last
      by (auto simp: skip validation_attempts_step passes_validation_def fails_validation_def
          split: sum.splits)
  qed
  from made decided show ?thesis unfolding n_def by blast
qed

theorem generate_with_validation_attempts_witness:
  "fails_validation short_scene_generator 8 ''Once upon a time'' \<and>
   generate_with_validation short_scene_generator only_c_answers ''Write the scene.'' 8
     empty_world =
     (Inr (Some ''Once upon a time''),
      attempt_world short_scene_generator only_c_answers ''Write the scene.'' 2 empty_world)"
proof -
  have n: "nat (scene_max_retries (sg_scene short_scene_generator)) = 2"
    by (simp add: short_scene_generator_def)
  have first: "attempt_output short_scene_generator only_c_answers ''Write the scene.'' 0
      empty_world = Some ''Once upon a time''"
    and second: "attempt_output short_scene_generator only_c_answers ''Write the scene.'' 1
      empty_world = Some ''Once upon a time''"
    and short: "fails_validation short_scene_generator 8 ''Once upon a time''"
    by code_simp+
  from first short have
    "\<forall>j<1. retried short_scene_generator 8 j
       (attempt_output short_scene_generator only_c_answers ''Write the scene.'' j empty_world)"
    by (simp add: retried_def n)
  with generate_with_validation_attempts [of short_scene_generator only_c_answers
      "''Write the scene.''" 8 empty_world] second short
  show ?thesis unfolding n by (auto simp: numeral_2_eq_2)
qed

section \<open>Properties of refine_scene.py\<close>

lemma writes_append: "writes (xs @ ys) = writes xs @ writes ys"
  by (induction xs rule: writes.induct) simp_all

lemma try_attempts_writes:
  "try_attempts mgr be m p atts w = (res, w') \<Longrightarrow> writes (trace w') = writes (trace w)"
proof (induction atts arbitrary: w)
  case Nil
  then show ?case by simp
next
  case (Cons a atts)
  show ?case
  proof (cases "be (trace w) m p")
    case Raises
    with Cons.prems have
      "try_attempts mgr be m p atts
         (if int a < max_retries mgr - 1
          then emit (Sleep (retry_delay mgr)) (emit (Generate m p Raises) w)
          else emit (Generate m p Raises) w) = (res, w')"
      by (simp add: Let_def)
    from Cons.IH [OF this] show ?thesis by (simp add: emit_def writes_append)
  next
    case (Returns t)
    show ?thesis
    proof (cases "t \<noteq> [] \<and> 0 < length (strip t)")
      case True
      with Cons.prems Returns show ?thesis by (auto simp: Let_def emit_def writes_append)
    next
      case False
      with Cons.prems Returns have
        "try_attempts mgr be m p atts (emit (Generate m p (Returns t)) w) = (res, w')"
        by (auto simp: Let_def)
      from Cons.IH [OF this] show ?thesis by (simp add: emit_def writes_append)
    qed
  qed
qed

lemma try_chain_writes:
  "try_chain mgr be p ms w = (res, w') \<Longrightarrow> writes (trace w') = writes (trace w)"
proof (induction ms arbitrary: w)
  case Nil
  then show ?case by simp
next
  case (Cons m ms)
  obtain r1 w1 where run: "try_generate mgr be m p w = (r1, w1)"
    by (cases "try_generate mgr be m p w")
  then have "writes (trace w1) = writes (trace w)"
    unfolding try_generate_def by (rule try_attempts_writes)
  with Cons run show ?case by (auto split: if_splits)
qed

lemma generate_with_retry_writes:
  "generate_with_retry mgr be p key w = (res, w') \<Longrightarrow> writes (trace w') = writes (trace w)"
  unfolding generate_with_retry_chain by (rule try_chain_writes)

lemma run_pass_writes:
  "run_pass sr fmt be content pass_type w = (res, w') \<Longrightarrow> writes (trace w') = writes (trace w)"
  by (auto simp: run_pass_def llm_refine_scene_def Let_def
      split: option.splits sum.splits prod.splits dest: generate_with_retry_writes)

lemma save_text_file_writes:
  "writes (trace (save_text_file content p w)) = writes (trace w) @ [(p, content)]"
  by (simp add: save_text_file_def emit_def writes_append)

lemma refine_passes_pass:
  "(refine_passes sr fmt be book_name chapter scene total_passes ((pass_num, pass_type) # rest)
      cur w = (Inr (Some final), w')) =
   (\<exists>r w1. run_pass sr fmt be cur pass_type w = (Inr (Some r), w1) \<and> r \<noteq> [] \<and>
      refine_passes sr fmt be book_name chapter scene total_passes rest r
        (save_text_file r
           (get_scene_path (sr_base sr) book_name chapter scene
              (''v'' @ str_of_int (int pass_num + 1) @ ''_'' @ pass_type)
              (get_stage_name pass_num total_passes)) w1) = (Inr (Some final), w'))"
proof -
  obtain x w1 where pass: "run_pass sr fmt be cur pass_type w = (x, w1)"
    by (cases "run_pass sr fmt be cur pass_type w")
  show ?thesis
  proof (cases x)
    case (Inl e)
    with pass show ?thesis by simp
  next
    case (Inr refined)
    with pass show ?thesis by (cases refined) (simp_all add: Let_def)
  qed
qed

lemma refine_succeeds:
  "(refine sr fmt be w scene_path book_name chapter scene (Some ps) = (Inr True, w')) =
   (path_exists w scene_path \<and>
    (\<exists>content final w1. load_text_file w scene_path = Inr content \<and>
       refine_passes sr fmt be book_name chapter scene (length ps)
         (zip [1 ..< Suc (length ps)] ps) content w = (Inr (Some final), w1) \<and>
       w' = save_text_file final
              (get_scene_path (sr_base sr) book_name chapter scene ''FINAL'' ''final'') w1))"
proof (cases "path_exists w scene_path")
  case False
  then show ?thesis by (simp add: refine_def)
next
  case True
  show ?thesis
  proof (cases "load_text_file w scene_path")
    case (Inl e)
    with True show ?thesis by (simp add: refine_def)
  next
    case (Inr content)
    obtain x w1 where passes:
      "refine_passes sr fmt be book_name chapter scene (length ps)
         (zip [1 ..< Suc (length ps)] ps) content w = (x, w1)"
      by (cases "refine_passes sr fmt be book_name chapter scene (length ps)
         (zip [1 ..< Suc (length ps)] ps) content w")
    show ?thesis
    proof (cases x)
      case (Inl e)
      with True Inr passes show ?thesis by (simp add: refine_def)
    next
      case r: (Inr res)
      with True Inr passes show ?thesis by (cases res) (auto simp: refine_def)
    qed
  qed
qed

text \<open>
  C5. A refinement run with the passes cohesion and style succeeds exactly when the scene
  file is there and both passes give a text. It then has written exactly three scene
  artifacts: the text the cohesion pass made of the scene as \<^verbatim>\<open>v2_cohesion\<close> under the
  stage \<^verbatim>\<open>refined\<close>, the text the style pass made of that text as \<^verbatim>\<open>v3_style\<close> under the
  stage \<^verbatim>\<open>final\<close>, and the text of the style pass once more as \<^verbatim>\<open>FINAL\<close> under the stage
  \<^verbatim>\<open>final\<close>.
\<close>

theorem refine_two_passes:
  "(refine sr fmt be w scene_path book_name chapter scene (Some [''cohesion'', ''style'']) =
      (Inr True, w')) =
   (path_exists w scene_path \<and>
    (\<exists>content r1 w1 r2 w2.
       load_text_file w scene_path = Inr content \<and>
       run_pass sr fmt be content ''cohesion'' w = (Inr (Some r1), w1) \<and> r1 \<noteq> [] \<and>
       run_pass sr fmt be r1 ''style''
         (save_text_file r1
            (get_scene_path (sr_base sr) book_name chapter scene ''v2_cohesion'' ''refined'') w1) =
         (Inr (Some r2), w2) \<and> r2 \<noteq> [] \<and>
       w' = save_text_file r2
              (get_scene_path (sr_base sr) book_name chapter scene ''FINAL'' ''final'')
              (save_text_file r2
                 (get_scene_path (sr_base sr) book_name chapter scene ''v3_style'' ''final'') w2) \<and>
       writes (trace w') = writes (trace w) @
         [(get_scene_path (sr_base sr) book_name chapter scene ''v2_cohesion'' ''refined'', r1),
          (get_scene_path (sr_base sr) book_name chapter scene ''v3_style'' ''final'', r2),
          (get_scene_path (sr_base sr) book_name chapter scene ''FINAL'' ''final'', r2)]))"
proof -
  have passes: "zip [1 ..< Suc (length [''cohesion'', ''style''])] [''cohesion'', ''style''] =
      [(1, ''cohesion''), (2, ''style'')]"
    by (simp add: upt_rec [of 1] upt_rec [of 2] upt_rec [of 3])
  have v2: "''v'' @ str_of_int (int 1 + 1) @ ''_'' @ ''cohesion'' = ''v2_cohesion''"
    and v3: "''v'' @ str_of_int (int 2 + 1) @ ''_'' @ ''style'' = ''v3_style''"
    by (simp_all add: str_of_int_def digits.simps digit_char_def)
  have stage: "get_stage_name 1 (length [''cohesion'', ''style'']) = ''refined''"
    "get_stage_name 2 (length [''cohesion'', ''style'']) = ''final''"
    by (simp_all add: get_stage_name_def)
  have written: "writes (trace (save_text_file r2 pf (save_text_file r2 p2 w2))) =
      writes (trace w) @ [(p1, r1), (p2, r2), (pf, r2)]"
    if "run_pass sr fmt be content ''cohesion'' w = (Inr (Some r1), w1)"
      and "run_pass sr fmt be r1 ''style'' (save_text_file r1 p1 w1) = (Inr (Some r2), w2)"
    for content r1 w1 r2 w2 p1 p2 pf
    using run_pass_writes [OF that(1)] run_pass_writes [OF that(2)]
    by (simp add: save_text_file_writes)
  show ?thesis
    unfolding refine_succeeds passes refine_passes_pass v2 v3 stage
    by (auto simp: written)
qed

theorem refine_two_passes_witness:
  "\<exists>w1 w2.
     run_pass demo_refiner plain_format rewriting_backend ''A draft.'' ''cohesion''
       raw_scene_world = (Inr (Some ''A first rewrite.''), w1) \<and>
     run_pass demo_refiner plain_format rewriting_backend ''A first rewrite.'' ''style''
       (save_text_file ''A first rewrite.''
          (get_scene_path ''/books'' ''saga'' 1 1 ''v2_cohesion'' ''refined'') w1) =
       (Inr (Some ''A second rewrite.''), w2) \<and>
     writes (trace (snd (refine demo_refiner plain_format rewriting_backend raw_scene_world
        ''/books/output/saga/scenes/raw/chapter_01_scene_01_v1.md'' ''saga'' 1 1
        (Some [''cohesion'', ''style'']))))
     = [(get_scene_path ''/books'' ''saga'' 1 1 ''v2_cohesion'' ''refined'', ''A first rewrite.''),
        (get_scene_path ''/books'' ''saga'' 1 1 ''v3_style'' ''final'', ''A second rewrite.''),
        (get_scene_path ''/books'' ''saga'' 1 1 ''FINAL'' ''final'', ''A second rewrite.'')]"
proof -
  define w' where "w' = snd (refine demo_refiner plain_format rewriting_backend raw_scene_world
        ''/books/output/saga/scenes/raw/chapter_01_scene_01_v1.md'' ''saga'' 1 1
        (Some [''cohesion'', ''style'']))"
  have "fst (refine demo_refiner plain_format rewriting_backend raw_scene_world
        ''/books/output/saga/scenes/raw/chapter_01_scene_01_v1.md'' ''saga'' 1 1
        (Some [''cohesion'', ''style''])) = Inr True"
    by code_simp
  then have run: "refine demo_refiner plain_format rewriting_backend raw_scene_world
        ''/books/output/saga/scenes/raw/chapter_01_scene_01_v1.md'' ''saga'' 1 1
        (Some [''cohesion'', ''style'']) = (Inr True, w')"
    unfolding w'_def by (metis prod.collapse)
  have base: "sr_base demo_refiner = ''/books''" by (simp add: demo_refiner_def)
  from refine_two_passes [THEN iffD1, OF run, unfolded base] obtain content r1 w1 r2 w2 where
    content: "load_text_file raw_scene_world
        ''/books/output/saga/scenes/raw/chapter_01_scene_01_v1.md'' = Inr content"
    and first: "run_pass demo_refiner plain_format rewriting_backend content ''cohesion''
        raw_scene_world = (Inr (Some r1), w1)"
    and second: "run_pass demo_refiner plain_format rewriting_backend r1 ''style''
        (save_text_file r1 (get_scene_path ''/books'' ''saga'' 1 1 ''v2_cohesion'' ''refined'') w1)
        = (Inr (Some r2), w2)"
    and written: "writes (trace w') = writes (trace raw_scene_world) @
        [(get_scene_path ''/books'' ''saga'' 1 1 ''v2_cohesion'' ''refined'', r1),
         (get_scene_path ''/books'' ''saga'' 1 1 ''v3_style'' ''final'', r2),
         (get_scene_path ''/books'' ''saga'' 1 1 ''FINAL'' ''final'', r2)]"
    by blast
  have "load_text_file raw_scene_world
      ''/books/output/saga/scenes/raw/chapter_01_scene_01_v1.md'' = Inr ''A draft.''"
    by code_simp
  with content have c: "content = ''A draft.''" by simp
  have "fst (run_pass demo_refiner plain_format rewriting_backend ''A draft.'' ''cohesion''
      raw_scene_world) = Inr (Some ''A first rewrite.'')"
    by code_simp
  with first c have r1: "r1 = ''A first rewrite.''" by simp
  from first c have w1: "w1 = snd (run_pass demo_refiner plain_format rewriting_backend
      ''A draft.'' ''cohesion'' raw_scene_world)"
    by simp
  have "fst (run_pass demo_refiner plain_format rewriting_backend ''A first rewrite.'' ''style''
      (save_text_file ''A first rewrite.''
         (get_scene_path ''/books'' ''saga'' 1 1 ''v2_cohesion'' ''refined'')
         (snd (run_pass demo_refiner plain_format rewriting_backend ''A draft.'' ''cohesion''
            raw_scene_world)))) = Inr (Some ''A second rewrite.'')"
    by code_simp
  with second r1 w1 have r2: "r2 = ''A second rewrite.''" by simp
  have "writes (trace raw_scene_world) = []" by (simp add: raw_scene_world_def)
  with first second written c r1 r2 show ?thesis
    unfolding w'_def by auto
qed

text \<open>
  The run writes a third artifact after its two passes: the text of the style pass is
  saved again as \<^verbatim>\<open>FINAL\<close>.
\<close>

theorem refine_writes_three_artifacts:
  "writes (trace (snd (refine demo_refiner plain_format rewriting_backend raw_scene_world
      ''/books/output/saga/scenes/raw/chapter_01_scene_01_v1.md'' ''saga'' 1 1
      (Some [''cohesion'', ''style'']))))
   = [(''/books/output/saga/scenes/refined/chapter_01_scene_01_v2_cohesion.md'', ''A first rewrite.''),
      (''/books/output/saga/scenes/final/chapter_01_scene_01_v3_style.md'', ''A second rewrite.''),
      (''/books/output/saga/scenes/final/chapter_01_scene_01_FINAL.md'', ''A second rewrite.'')]"
  by code_simp

section \<open>Properties of assemble_chapter.py\<close>

lemma strip_keeps_first: "\<not> py_isspace c \<Longrightarrow> \<exists>rest. strip (c # cs) = c # rest"
proof -
  assume c: "\<not> py_isspace c"
  have "\<exists>ys. dropWhile py_isspace (rev cs @ [c]) = ys @ [c]"
    using c by (simp add: dropWhile_append)
  then obtain ys where ys: "dropWhile py_isspace (rev cs @ [c]) = ys @ [c]" ..
  have "strip (c # cs) = rev (dropWhile py_isspace (rev cs @ [c]))"
    using c by (simp add: strip_def)
  then have "strip (c # cs) = c # rev ys" unfolding ys by simp
  then show ?thesis ..
qed

lemma strip_chapter_header: "strip (chapter_header chapter) \<noteq> ''---''"
proof -
  have "\<not> py_isspace CHR ''#''" by (simp add: py_isspace_def)
  from strip_keeps_first [OF this, of "'' Chapter '' @ str_of_int chapter @ [NL, NL]"]
  show ?thesis by (auto simp: chapter_header_def)
qed

lemma strip_scene_separator: "strip scene_separator = ''---''"
  by (simp add: strip_def scene_separator_def NL_def py_isspace_def)

lemma scene_parts_loaded:
  "map (load_text_file w) scene_paths = map Inr contents \<Longrightarrow>
     scene_parts w scene_paths parts =
       Inr (parts @ concat (map (\<lambda>c. [remove_scene_header c, scene_separator])
                              (filter (\<lambda>c. c \<noteq> []) contents)))"
proof (induction scene_paths arbitrary: parts contents)
  case Nil
  then show ?case by simp
next
  case (Cons p ps)
  then obtain c cs where "contents = c # cs" "load_text_file w p = Inr c"
    "map (load_text_file w) ps = map Inr cs"
    by (cases contents) auto
  with Cons.IH [of cs] show ?case by simp
qed

lemma concat_butlast_parts:
  "xs \<noteq> [] \<Longrightarrow>
     concat (butlast (concat (map (\<lambda>c. [f c, sep]) xs))) = join_with sep (map f xs)"
proof (induction xs)
  case Nil
  then show ?case by simp
next
  case (Cons x xs)
  then show ?case by (cases xs) simp_all
qed

lemma concatenate_scenes_law:
  assumes "map (load_text_file w) scene_paths = map Inr contents"
  shows "concatenate_scenes w scene_paths chapter =
           Inr (chapter_header chapter @
                join_with scene_separator
                  (map remove_scene_header (filter (\<lambda>c. c \<noteq> []) contents)))"
proof (cases "filter (\<lambda>c. c \<noteq> []) contents = []")
  case True
  with scene_parts_loaded [OF assms, of "[chapter_header chapter]"] show ?thesis
    by (simp add: concatenate_scenes_def strip_chapter_header)
next
  case False
  define xs where "xs = filter (\<lambda>c. c \<noteq> []) contents"
  define tailparts where "tailparts = concat (map (\<lambda>c. [remove_scene_header c, scene_separator]) xs)"
  from False have xs: "xs \<noteq> []" by (simp add: xs_def)
  then have ne: "tailparts \<noteq> []" and lst: "last tailparts = scene_separator"
    by (cases xs rule: rev_cases; simp add: tailparts_def)+
  from ne have "butlast (chapter_header chapter # tailparts) = chapter_header chapter # butlast tailparts"
    by simp
  with scene_parts_loaded [OF assms, of "[chapter_header chapter]"] ne lst
    concat_butlast_parts [OF xs, of remove_scene_header scene_separator]
  show ?thesis
    by (simp add: concatenate_scenes_def strip_scene_separator xs_def [symmetric] tailparts_def [symmetric])
qed

text \<open>
  C6. Assembling chapter 1 from two scene files that hold \<^verbatim>\<open>Text A\<close> and \<^verbatim>\<open>Text B\<close>, with
  smoothing disabled (by the argument or by the configuration), saves and returns the raw
  chapter \<^verbatim>\<open># Chapter 1\<close>, an empty line, \<^verbatim>\<open>Text A\<close>, the separator \<^verbatim>\<open>---\<close> between empty
  lines, \<^verbatim>\<open>Text B\<close>: the header, the scenes in order with the separator between them,
  and no separator at the end.
\<close>

theorem assemble_two_scenes:
  assumes "load_text_file w p1 = Inr ''Text A''" and "load_text_file w p2 = Inr ''Text B''"
    and "smooth = False \<or> smoothing_enabled ca = Some False"
  shows "concatenate_scenes w [p1, p2] 1 = Inr chapter_one_text \<and>
         assemble ca be w book_name 1 (Some [p1, p2]) smooth =
           (Inr (Some chapter_one_text),
            save_text_file chapter_one_text (get_chapter_path (ca_base ca) book_name 1 ''raw'') w)"
proof -
  from assms(1,2) have "map (load_text_file w) [p1, p2] = map Inr [''Text A'', ''Text B'']"
    by simp
  from concatenate_scenes_law [OF this, of 1]
  have raw: "concatenate_scenes w [p1, p2] 1 = Inr chapter_one_text"
    by (simp add: chapter_one_text_def chapter_header_def scene_separator_def
        remove_scene_header_def startswith_def str_of_int_def digits.simps digit_char_def)
  have "chapter_one_text \<noteq> []" by (simp add: chapter_one_text_def)
  with raw assms(3) show ?thesis by (auto simp: assemble_def Let_def)
qed

theorem assemble_two_scenes_witness:
  "discover_scenes demo_assembler two_scene_world ''saga'' 1 =
     [''/books/output/saga/scenes/final/chapter_01_scene_01_FINAL.md'',
      ''/books/output/saga/scenes/final/chapter_01_scene_02_FINAL.md''] \<and>
   assemble demo_assembler only_c_answers two_scene_world ''saga'' 1 None False =
     (Inr (Some chapter_one_text),
      save_text_file chapter_one_text (get_chapter_path ''/books'' ''saga'' 1 ''raw'')
        two_scene_world)"
proof -
  have found: "discover_scenes demo_assembler two_scene_world ''saga'' 1 =
     [''/books/output/saga/scenes/final/chapter_01_scene_01_FINAL.md'',
      ''/books/output/saga/scenes/final/chapter_01_scene_02_FINAL.md'']"
    by code_simp
  have a: "load_text_file two_scene_world
      ''/books/output/saga/scenes/final/chapter_01_scene_01_FINAL.md'' = Inr ''Text A''"
    and b: "load_text_file two_scene_world
      ''/books/output/saga/scenes/final/chapter_01_scene_02_FINAL.md'' = Inr ''Text B''"
    by code_simp+
  have "assemble demo_assembler only_c_answers two_scene_world ''saga'' 1 None False =
        assemble demo_assembler only_c_answers two_scene_world ''saga'' 1
          (Some [''/books/output/saga/scenes/final/chapter_01_scene_01_FINAL.md'',
                 ''/books/output/saga/scenes/final/chapter_01_scene_02_FINAL.md'']) False"
    by (simp add: assemble_def found)
  with assemble_two_scenes [OF a b, of False demo_assembler only_c_answers "''saga''"] found
  show ?thesis by (simp add: demo_assembler_def)
qed

section \<open>Properties of memory_manager.py\<close>


















text \<open>
  C4. \<^verbatim>\<open>add_entry\<close> returns normally, with \<^verbatim>\<open>None\<close>, whatever the collection does: a
  failure of the insert is not passed on to the caller. When the \<^verbatim>\<open>add\<close> raises, the
  failure is logged and the same id, text and metadata are sent again as an \<^verbatim>\<open>update\<close>, to
  the store as the failed \<^verbatim>\<open>add\<close> left it; the store after the call is the one the
  \<^verbatim>\<open>update\<close> gives, and when the \<^verbatim>\<open>update\<close> raises too, that failure is logged as well.
  In every case the call ends like a successful one, with the line that the entry was
  added.
\<close>

theorem add_entry_returns_normally:
  "fst (add_entry coll dbt md5 text ty marg stamp now st) = Inr () \<and>
   (let entry_id = generate_id md5 text ty now;
        metadata = (case marg of None \<Rightarrow> Map.empty | Some m \<Rightarrow> m)
                     (''type'' \<mapsto> Str ty, ''timestamp'' \<mapsto> Str (isoformat stamp),
                      ''text_hash'' \<mapsto> Str (hash_text md5 text));
        added = coll_add coll (db st) entry_id text metadata;
        updated = coll_update coll (snd added) entry_id text metadata;
        st' = snd (add_entry coll Chromadb md5 text ty marg stamp now st);
        report = Log_debug (''Added '' @ ty @ '' entry: '' @ entry_id)
    in (fst added = None \<longrightarrow>
          db st' = snd added \<and> logged st' = logged st @ [report]) \<and>
       (\<forall>e. fst added = Some e \<longrightarrow>
          db st' = snd updated \<and>
          (fst updated = None \<longrightarrow>
             logged st' = logged st @
               [Log_error (''Failed to add to ChromaDB: '' @ e), report]) \<and>
          (\<forall>e2. fst updated = Some e2 \<longrightarrow>
             logged st' = logged st @
               [Log_error (''Failed to add to ChromaDB: '' @ e),
                Log_error (''Failed to update in ChromaDB: '' @ e2), report])))"
proof -
  define entry_id where "entry_id = generate_id md5 text ty now"
  define metadata where "metadata = (case marg of None \<Rightarrow> Map.empty | Some m \<Rightarrow> m)
      (''type'' \<mapsto> Str ty, ''timestamp'' \<mapsto> Str (isoformat stamp),
       ''text_hash'' \<mapsto> Str (hash_text md5 text))"
  obtain e1 s1 where a: "coll_add coll (db st) entry_id text metadata = (e1, s1)"
    by (cases "coll_add coll (db st) entry_id text metadata")
  obtain e2 s2 where u: "coll_update coll s1 entry_id text metadata = (e2, s2)"
    by (cases "coll_update coll s1 entry_id text metadata")
  have "fst (add_entry coll dbt md5 text ty marg stamp now st) = Inr ()"
    by (simp add: add_entry_def Let_def)
  moreover have "snd (add_entry coll Chromadb md5 text ty marg stamp now st) =
      (case e1 of
         None \<Rightarrow> \<lparr>db = s1, logged = logged st @
             [Log_debug (''Added '' @ ty @ '' entry: '' @ entry_id)]\<rparr>
       | Some e \<Rightarrow>
           \<lparr>db = s2, logged = logged st @
              Log_error (''Failed to add to ChromaDB: '' @ e) #
              (case e2 of None \<Rightarrow> []
               | Some e' \<Rightarrow> [Log_error (''Failed to update in ChromaDB: '' @ e')]) @
              [Log_debug (''Added '' @ ty @ '' entry: '' @ entry_id)]\<rparr>)"
    using a u
    by (cases e1; cases e2)
       (simp_all add: add_entry_def add_chromadb_def log_line_def Let_def
          entry_id_def [symmetric] metadata_def [symmetric])
  ultimately show ?thesis
    unfolding Let_def entry_id_def [symmetric] metadata_def [symmetric]
    using a u by (cases e1; cases e2) simp_all
qed

theorem add_entry_returns_normally_witness:
  "logged (snd (add_entry (list_collection Raise_on_duplicate) Chromadb note_digest
                   ''Mara distrusts the river folk.'' ''character'' None noon noon
                   (snd (add_entry (list_collection Raise_on_duplicate) Chromadb note_digest
                           ''Mara distrusts the river folk.'' ''character'' None noon noon
                           empty_memory)))) =
     [Log_debug ''Added character entry: character_20250314120000_7d926b95'',
      Log_error
        ''Failed to add to ChromaDB: ID already exists: character_20250314120000_7d926b95'',
      Log_debug ''Added character entry: character_20250314120000_7d926b95''] \<and>
   logged (snd (add_entry full_disk_collection Chromadb note_digest
                  ''Mara distrusts the river folk.'' ''character'' None noon noon empty_memory)) =
     [Log_error ''Failed to add to ChromaDB: disk full'',
      Log_error ''Failed to update in ChromaDB: disk full'',
      Log_debug ''Added character entry: character_20250314120000_7d926b95'']"
proof -
  define st1 where "st1 = snd (add_entry (list_collection Raise_on_duplicate) Chromadb note_digest
      ''Mara distrusts the river folk.'' ''character'' None noon noon empty_memory)"
  have i: "generate_id note_digest ''Mara distrusts the river folk.'' ''character'' noon =
      ''character_20250314120000_7d926b95''"
    by code_simp
  have ids: "map fst (db st1) = [''character_20250314120000_7d926b95'']"
    and log1: "logged st1 =
      [Log_debug ''Added character entry: character_20250314120000_7d926b95'']"
    unfolding st1_def
    by (simp_all add: add_entry_def add_chromadb_def list_collection_def list_add_def
        empty_memory_def log_line_def Let_def i)
  have again: "logged (snd (add_entry (list_collection Raise_on_duplicate) Chromadb note_digest
      ''Mara distrusts the river folk.'' ''character'' None noon noon st1)) =
     [Log_debug ''Added character entry: character_20250314120000_7d926b95'',
      Log_error
        ''Failed to add to ChromaDB: ID already exists: character_20250314120000_7d926b95'',
      Log_debug ''Added character entry: character_20250314120000_7d926b95'']"
    using add_entry_returns_normally [of "list_collection Raise_on_duplicate" Chromadb note_digest
        "''Mara distrusts the river folk.''" "''character''" None noon noon st1]
    by (simp add: Let_def i ids log1 list_collection_def list_add_def list_update_def)
  have full: "logged (snd (add_entry full_disk_collection Chromadb note_digest
      ''Mara distrusts the river folk.'' ''character'' None noon noon empty_memory)) =
     [Log_error ''Failed to add to ChromaDB: disk full'',
      Log_error ''Failed to update in ChromaDB: disk full'',
      Log_debug ''Added character entry: character_20250314120000_7d926b95'']"
    using add_entry_returns_normally [of full_disk_collection Chromadb note_digest
        "''Mara distrusts the river folk.''" "''character''" None noon noon empty_memory]
    by (simp add: Let_def i full_disk_collection_def empty_memory_def)
  from again full show ?thesis unfolding st1_def by simp
qed

text \<open>
  With a collection that fails every request, the call returns \<^verbatim>\<open>None\<close> as it does after
  a successful insert; the store is empty and the failures are in the log.
\<close>

theorem add_entry_full_disk:
  "fst (add_entry full_disk_collection Chromadb note_digest ''Mara distrusts the river folk.''
          ''character'' None noon noon empty_memory) = Inr () \<and>
   length (db (snd (add_entry full_disk_collection Chromadb note_digest
                      ''Mara distrusts the river folk.'' ''character'' None noon noon
                      empty_memory))) = 0 \<and>
   logged (snd (add_entry full_disk_collection Chromadb note_digest
                  ''Mara distrusts the river folk.'' ''character'' None noon noon empty_memory)) =
     [Log_error ''Failed to add to ChromaDB: disk full'',
      Log_error ''Failed to update in ChromaDB: disk full'',
      Log_debug ''Added character entry: character_20250314120000_7d926b95'']"
  by code_simp

lemma format_hits_metadata:
  "format_hits docs metas dists = Some hs \<Longrightarrow> set (map hit_metadata hs) \<subseteq> set metas"
proof (induction docs metas dists arbitrary: hs rule: format_hits.induct)
  case (1 metas dists)
  then show ?case by simp
next
  case (2 doc docs m metas d dists)
  then show ?case by (cases "format_hits docs metas dists") fastforce+
qed simp_all

lemma format_results_metadata:
  "format_results r = Some hs \<Longrightarrow> h \<in> set hs \<Longrightarrow> \<exists>ms \<in> set (metadatas r). hit_metadata h \<in> set ms"
  by (cases "metadatas r"; cases "distances r")
     (auto simp: format_results_def split: if_splits dest!: format_hits_metadata)

lemma query_chromadb_hits:
  assumes "h \<in> set (fst (query_chromadb coll q ts k st))"
  shows "\<exists>r ms. coll_query coll (db st) q k
            (if ts \<noteq> [] then (if length ts = 1 then Some (Type_is (ts ! 0)) else Some (Type_in ts))
             else None) = Inr r \<and>
          ms \<in> set (metadatas r) \<and> hit_metadata h \<in> set ms"
  using assms
  by (auto simp: query_chromadb_def Let_def split: sum.splits option.splits if_splits)
     (meson format_results_metadata)+

text \<open>
  C7. On a collection that honours the \<^verbatim>\<open>where\<close> filter of its queries, a memory query
  with a non-empty list of entry types returns only entries whose stored \<^verbatim>\<open>type\<close> is one
  of the given types; restricted to the type \<^verbatim>\<open>character\<close>, every entry returned has the
  stored type \<^verbatim>\<open>character\<close>, for every query text and every number of results.
\<close>

theorem query_respects_types:
  assumes "\<forall>s q k f r. coll_query coll s q k (Some f) = Inr r \<longrightarrow>
             list_all (list_all (matches f)) (metadatas r)"
    and "entry_types \<noteq> []"
  shows "list_all (\<lambda>h. list_ex (\<lambda>t. hit_metadata h ''type'' = Some (Str t)) entry_types)
           (fst (query coll dbt query_text (Some entry_types) top_k st)) \<and>
         list_all (\<lambda>h. hit_metadata h ''type'' = Some (Str ''character''))
           (fst (query coll dbt query_text (Some [''character'']) top_k st))"
proof -
  have typed: "list_ex (\<lambda>t. hit_metadata h ''type'' = Some (Str t)) ts"
    if "ts \<noteq> []" and h: "h \<in> set (fst (query coll dbt query_text (Some ts) top_k st))"
    for ts h
  proof (cases dbt)
    case Lancedb
    with h show ?thesis by (simp add: query_def query_lancedb_def)
  next
    case Chromadb
    with h have "h \<in> set (fst (query_chromadb coll query_text ts top_k st))"
      by (simp add: query_def)
    from query_chromadb_hits [OF this] that(1) obtain r ms where r:
      "coll_query coll (db st) query_text top_k
         (if length ts = 1 then Some (Type_is (ts ! 0)) else Some (Type_in ts)) = Inr r"
      "ms \<in> set (metadatas r)" "hit_metadata h \<in> set ms"
      by auto
    show ?thesis
    proof (cases "length ts = 1")
      case True
      then obtain t where t: "ts = [t]" by (cases ts) auto
      with r assms(1) have "matches (Type_is t) (hit_metadata h)"
        by (fastforce simp: list_all_iff)
      with t show ?thesis by (simp add: matches_def)
    next
      case False
      with r assms(1) have "matches (Type_in ts) (hit_metadata h)"
        by (fastforce simp: list_all_iff)
      then show ?thesis by (simp add: matches_def)
    qed
  qed
  from typed [OF assms(2)] typed [of "[''character'']"] show ?thesis
    by (auto simp: list_all_iff)
qed

lemma list_query_honours:
  "list_query es q k (Some f) = Inr r \<Longrightarrow> list_all (list_all (matches f)) (metadatas r)"
proof -
  assume "list_query es q k (Some f) = Inr r"
  then have "metadatas r =
      [map (\<lambda>e. snd (snd e))
         (take (nat k) (sort_key (\<lambda>e. text_distance q (fst (snd e)))
            (filter (\<lambda>e. matches f (snd (snd e))) es)))]"
    by (auto simp: list_query_def Let_def split: if_splits)
  moreover have "set (take (nat k) (sort_key (\<lambda>e. text_distance q (fst (snd e)))
            (filter (\<lambda>e. matches f (snd (snd e))) es)))
      \<subseteq> set (filter (\<lambda>e. matches f (snd (snd e))) es)"
    using set_take_subset [of "nat k"] by (metis set_sort)
  ultimately show ?thesis by (auto simp: list_all_iff)
qed

theorem query_respects_types_witness:
  "length (fst (query (list_collection Raise_on_duplicate) Chromadb ''Mara'' (Some [''character'']) 5
             two_note_memory)) = 1 \<and>
   list_all (\<lambda>h. hit_metadata h ''type'' = Some (Str ''character''))
     (fst (query (list_collection Raise_on_duplicate) Chromadb ''Mara'' (Some [''character'']) 5
        two_note_memory))"
proof -
  have "\<forall>s q k f r. coll_query (list_collection Raise_on_duplicate) s q k (Some f) = Inr r \<longrightarrow>
          list_all (list_all (matches f)) (metadatas r)"
    by (auto simp: list_collection_def dest: list_query_honours)
  from query_respects_types [OF this, of "[''character'']" Chromadb "''Mara''" 5 two_note_memory]
  have "list_all (\<lambda>h. hit_metadata h ''type'' = Some (Str ''character''))
     (fst (query (list_collection Raise_on_duplicate) Chromadb ''Mara'' (Some [''character'']) 5
        two_note_memory))"
    by simp
  moreover have "length (fst (query (list_collection Raise_on_duplicate) Chromadb ''Mara''
      (Some [''character'']) 5 two_note_memory)) = 1"
    by code_simp
  ultimately show ?thesis by simp
qed

text \<open>
  C10. Whatever metadata the caller supplies, every request to store that \<^verbatim>\<open>add_entry\<close>
  sends to the collection (the \<^verbatim>\<open>add\<close>, and the \<^verbatim>\<open>update\<close> after a failed \<^verbatim>\<open>add\<close>) carries
  the id and the text of the call and a metadata whose \<^verbatim>\<open>type\<close> is the entry type, whose
  \<^verbatim>\<open>timestamp\<close> is the clock reading and whose \<^verbatim>\<open>text_hash\<close> is the digest of the text;
  with ChromaDB at least one such request is sent.
\<close>

theorem add_entry_standard_metadata:
  "\<exists>reqs.
     requests (db (snd (add_entry (recording coll) dbt md5 text ty marg stamp now st))) =
       requests (db st) @ reqs \<and>
     list_all (\<lambda>(i, d, m). i = generate_id md5 text ty now \<and> d = text \<and>
                 m ''type'' = Some (Str ty) \<and> m ''timestamp'' = Some (Str (isoformat stamp)) \<and>
                 m ''text_hash'' = Some (Str (hash_text md5 text))) reqs \<and>
     (dbt = Chromadb \<longrightarrow> reqs \<noteq> [])"
proof (cases dbt)
  case Lancedb
  then show ?thesis
    by (simp add: add_entry_def add_lancedb_def log_line_def Let_def)
next
  case Chromadb
  define m where "m = (case marg of None \<Rightarrow> Map.empty | Some m0 \<Rightarrow> m0)
      (''type'' \<mapsto> Str ty, ''timestamp'' \<mapsto> Str (isoformat stamp),
       ''text_hash'' \<mapsto> Str (hash_text md5 text))"
  define i where "i = generate_id md5 text ty now"
  have m: "m ''type'' = Some (Str ty)" "m ''timestamp'' = Some (Str (isoformat stamp))"
    "m ''text_hash'' = Some (Str (hash_text md5 text))"
    by (simp_all add: m_def)
  obtain e1 s1 where a: "coll_add coll (inner (db st)) i text m = (e1, s1)"
    by (cases "coll_add coll (inner (db st)) i text m")
  obtain e2 s2 where u: "coll_update coll s1 i text m = (e2, s2)"
    by (cases "coll_update coll s1 i text m")
  have "requests (db (snd (add_entry (recording coll) dbt md5 text ty marg stamp now st))) =
      requests (db st) @ (if e1 = None then [(i, text, m)] else [(i, text, m), (i, text, m)])"
    using a u Chromadb
    by (cases e1; cases e2)
       (simp_all add: add_entry_def add_chromadb_def recording_def log_line_def Let_def
          m_def [symmetric] i_def [symmetric])
  with m Chromadb show ?thesis unfolding i_def by (cases e1) auto
qed

theorem add_entry_standard_metadata_witness:
  "\<exists>m. requests (db (snd (add_entry (recording (list_collection Raise_on_duplicate)) Chromadb
            note_digest ''Mara distrusts the river folk.'' ''character''
            (Some [''type'' \<mapsto> Str ''world'', ''timestamp'' \<mapsto> Str ''yesterday''])
            noon noon \<lparr>db = \<lparr>inner = [], requests = []\<rparr>, logged = []\<rparr>))) =
         [(''character_20250314120000_7d926b95'', ''Mara distrusts the river folk.'', m)] \<and>
       m ''type'' = Some (Str ''character'') \<and>
       m ''timestamp'' = Some (Str ''2025-03-14T12:00:00'') \<and>
       m ''text_hash'' = Some (Str ''7d926b95c8019b23f782cef0b85245af'')"
proof -
  define marg :: "metadata option" where
    "marg = Some [''type'' \<mapsto> Str ''world'', ''timestamp'' \<mapsto> Str ''yesterday'']"
  define st :: "entries recorder memory" where
    "st = \<lparr>db = \<lparr>inner = [], requests = []\<rparr>, logged = []\<rparr>"
  from add_entry_standard_metadata [of "list_collection Raise_on_duplicate" Chromadb note_digest
      "''Mara distrusts the river folk.''" "''character''" marg noon noon st]
  obtain reqs where reqs:
    "requests (db (snd (add_entry (recording (list_collection Raise_on_duplicate)) Chromadb
        note_digest ''Mara distrusts the river folk.'' ''character'' marg noon noon st))) = reqs"
    "list_all (\<lambda>(i, d, m). i = generate_id note_digest ''Mara distrusts the river folk.''
                   ''character'' noon \<and> d = ''Mara distrusts the river folk.'' \<and>
                 m ''type'' = Some (Str ''character'') \<and>
                 m ''timestamp'' = Some (Str (isoformat noon)) \<and>
                 m ''text_hash'' =
                   Some (Str (hash_text note_digest ''Mara distrusts the river folk.''))) reqs"
    by (auto simp: st_def)
  have "length (requests (db (snd (add_entry (recording (list_collection Raise_on_duplicate))
        Chromadb note_digest ''Mara distrusts the river folk.'' ''character'' marg noon noon st))))
      = 1"
    unfolding marg_def st_def by code_simp
  with reqs(1) obtain i d m where one: "reqs = [(i, d, m)]"
    by (cases reqs) auto
  have "generate_id note_digest ''Mara distrusts the river folk.'' ''character'' noon
      = ''character_20250314120000_7d926b95''"
    and "isoformat noon = ''2025-03-14T12:00:00''"
    and "hash_text note_digest ''Mara distrusts the river folk.''
      = ''7d926b95c8019b23f782cef0b85245af''"
    by code_simp+
  with reqs one show ?thesis unfolding marg_def st_def by auto
qed

end
